theory Spec2Isabelle
  imports Complex_Main "HOL-Library.Multiset"
begin

section \<open>The load test of the query server: \<open>load_test/run_load_test.py\<close>\<close>

text \<open>
  The script posts every query of \<open>QUERIES\<close> to the server at once
  (\<open>asyncio.gather\<close> over \<open>send_query\<close>), puts the returned dictionaries into a
  data frame, prints a one-row summary of the \<open>duration\<close> column and writes a CSV file.

  What the model takes from outside the script:
  \<^item> time and numbers: a finite double is the rational number it denotes, and a
    result of the summary's arithmetic (the sum, the mean, the division of the count by
    the sum) is rounded to the nearest double, ties to even, with overflow to an
    infinity and with the subnormal range (\<open>round64\<close> below). The two zeros are not
    told apart: a zero is \<open>+0.0\<close>. The minimum and the quantile return elements of
    the column and involve no rounding. The subtraction of the two clock readings in
    \<open>send_query\<close> is taken exactly;
  \<^item> the server and the network: what one \<open>client.post\<close> does is an \<open>exchange\<close>
    given from outside, and the order in which the dispatches complete is a list of
    task indices given from outside;
  \<^item> the libraries, by their documented behaviour: \<open>dict.get\<close>, \<open>str\<close>, \<open>len\<close>,
    \<open>asyncio.gather\<close> (default \<open>return_exceptions=False\<close>), and the data-frame
    library's \<open>min\<close>, \<open>mean\<close>, \<open>sum\<close>, \<open>count\<close>, \<open>quantile\<close> (default
    \<open>interpolation='nearest'\<close>) and \<open>write_csv\<close>. Which \<open>cost\<close> values the library
    can put into a frame and write as CSV is given from outside (\<open>library\<close> below).
\<close>

subsection \<open>Values\<close>

text \<open>
  A Python \<open>str\<close> is its sequence of Unicode code points, so that \<open>length\<close> is
  Python's \<open>len\<close>. Dictionary keys are kept as byte strings: the script looks up
  the two ASCII keys \<open>output\<close> and \<open>cost\<close> only.
\<close>

type_synonym ustr = "nat list"

text \<open>What \<open>resp.json()\<close> returns: the Python value of a JSON document.\<close>

datatype json =
    JNull
  | JBool bool
  | JInt int
  | JFloat rat
  | JStr ustr
  | JArr "json list"
  | JObj "(string \<times> json) list"

text \<open>
  The exceptions of a run: \<open>client.post\<close> fails (connection refused, timeout),
  \<open>resp.json()\<close> rejects the body, \<open>data.get\<close> on a value that is no dictionary,
  \<open>pl.DataFrame\<close> cannot build the frame, the frame has no column \<open>duration\<close>,
  and \<open>write_csv\<close> cannot write the frame.
\<close>

datatype error =
    TransportError
  | JSONDecodeError
  | AttributeError
  | DataFrameError
  | ColumnNotFoundError
  | WriteCsvError

subsection \<open>Double-precision arithmetic\<close>

text \<open>
  The result of an operation on doubles: a finite double (the rational it denotes),
  an infinity or \<open>nan\<close>.
\<close>

datatype f64 = Finite rat | PosInf | NegInf | NaN

text \<open>The number of binary digits of a natural number.\<close>

fun bit_length :: "nat \<Rightarrow> nat" where
  "bit_length n = (if n = 0 then 0 else Suc (bit_length (n div 2)))"

text \<open>
  For \<open>a > 0\<close>, the exponent \<open>k\<close> with \<open>2^k \<le> a < 2^(k + 1)\<close>, from the lengths
  of numerator and denominator (\<open>ilog2_bounds\<close> below proves it).
\<close>

definition ilog2 :: "rat \<Rightarrow> int" where
  "ilog2 a =
     (case quotient_of a of
        (p, q) \<Rightarrow>
          let d = int (bit_length (nat p)) - int (bit_length (nat q))
          in if 2 powi d \<le> a then d else d - 1)"

text \<open>The nearest integer, a tie going to the even one.\<close>

definition round_half_even :: "rat \<Rightarrow> int" where
  "round_half_even y =
     (let f = \<lfloor>y\<rfloor>; r = y - of_int f
      in if r < 1 / 2 then f else if 1 / 2 < r then f + 1 else if even f then f else f + 1)"

text \<open>
  IEEE-754 binary64 rounding of an exact result \<open>x\<close>: 53 significant bits, so a spacing
  of \<open>2^e\<close> with \<open>e = ilog2 \<bar>x\<bar> - 52\<close>, but no finer than \<open>2^(-1074)\<close>; a rounded
  magnitude of \<open>2^1024\<close> or more is an infinity.
\<close>

definition round64 :: "rat \<Rightarrow> f64" where
  "round64 x =
     (if x = 0 then Finite 0
      else
        let a = \<bar>x\<bar>;
            e = max (ilog2 a - 52) (- 1074);
            r = of_int (round_half_even (a / 2 powi e)) * 2 powi e
        in if 2 powi 1024 \<le> r then (if 0 < x then PosInf else NegInf)
           else Finite (if 0 < x then r else - r))"

text \<open>Addition and division of doubles.\<close>

fun fadd :: "f64 \<Rightarrow> f64 \<Rightarrow> f64" where
  "fadd (Finite a) (Finite b) = round64 (a + b)"
| "fadd NaN y = NaN"
| "fadd x NaN = NaN"
| "fadd PosInf NegInf = NaN"
| "fadd NegInf PosInf = NaN"
| "fadd PosInf y = PosInf"
| "fadd NegInf y = NegInf"
| "fadd x PosInf = PosInf"
| "fadd x NegInf = NegInf"

fun fdiv :: "f64 \<Rightarrow> f64 \<Rightarrow> f64" where
  "fdiv (Finite a) (Finite b) =
     (if b \<noteq> 0 then round64 (a / b)
      else if a = 0 then NaN else if 0 < a then PosInf else NegInf)"
| "fdiv NaN y = NaN"
| "fdiv x NaN = NaN"
| "fdiv (Finite a) y = Finite 0"
| "fdiv PosInf (Finite b) = (if 0 \<le> b then PosInf else NegInf)"
| "fdiv NegInf (Finite b) = (if 0 \<le> b then NegInf else PosInf)"
| "fdiv x y = NaN"

text \<open>
  The sum of a column of doubles: the rows are added one after the other, from
  \<open>0.0\<close>, each addition rounding. (This is the order in which the library's sum kernel adds
  a column of fewer than 128 rows; its blockwise sum of longer columns is not
  modelled, and the properties below that depend on the order are stated for fewer
  than 128 rows.)
\<close>

definition fsum :: "rat list \<Rightarrow> f64" where
  "fsum ds = foldl (\<lambda>acc d. fadd acc (Finite d)) (Finite 0) ds"

text \<open>The unit roundoff of doubles, \<open>2^(-53)\<close>: half the spacing of doubles above 1.\<close>

definition unit_roundoff :: rat where
  "unit_roundoff = 1 / 2 ^ 53"

text \<open>The double that the decimal literal \<open>x\<close> denotes, for a literal in range.\<close>

definition dbl :: "rat \<Rightarrow> rat" where
  "dbl x = (case round64 x of Finite r \<Rightarrow> r | _ \<Rightarrow> 0)"

subsection \<open>One dispatch: \<open>send_query\<close>\<close>

text \<open>
  What happens to one \<open>client.post\<close>: the two readings of \<open>perf_counter\<close> around it,
  and either no response (the call raises) or a response whose body \<open>resp.json()\<close>
  parses (\<open>Some\<close>) or rejects (\<open>None\<close>).
\<close>

datatype reply = NoReply | Body "json option"

record exchange =
  started :: rat
  finished :: rat
  reply :: reply

text \<open>The dictionary that \<open>send_query\<close> returns, a row of the data frame.\<close>

record measurement =
  duration :: rat
  size_r :: nat
  cost :: json

text \<open>\<open>d.get(k, dflt)\<close>.\<close>

definition dict_get :: "(string \<times> json) list \<Rightarrow> string \<Rightarrow> json \<Rightarrow> json" where
  "dict_get d k dflt = (case map_of d k of None \<Rightarrow> dflt | Some v \<Rightarrow> v)"

text \<open>
  \<open>str(v)\<close>: a \<open>str\<close> is returned as it is; for every other JSON value \<open>str\<close> is
  \<open>repr\<close>, which is a parameter of the model.
\<close>

fun py_str :: "(json \<Rightarrow> ustr) \<Rightarrow> json \<Rightarrow> ustr" where
  "py_str repr (JStr s) = s"
| "py_str repr v = repr v"

text \<open>
  \<open>send_query(client, query)\<close>; \<open>post\<close> is what \<open>client.post(URL, content=query)\<close>
  does for this dispatch. The function has no \<open>try\<close>: each exception leaves it.
\<close>

definition send_query :: "(json \<Rightarrow> ustr) \<Rightarrow> (string \<Rightarrow> exchange) \<Rightarrow> string \<Rightarrow> error + measurement" where
  "send_query repr post query =
     (let x = post query in
      case reply x of
        NoReply \<Rightarrow> Inl TransportError
      | Body None \<Rightarrow> Inl JSONDecodeError
      | Body (Some (JObj data)) \<Rightarrow>
          Inr \<lparr>duration = finished x - started x,
               size_r = length (py_str repr (dict_get data ''output'' (JStr []))),
               cost = dict_get data ''cost'' JNull\<rparr>
      | Body (Some _) \<Rightarrow> Inl AttributeError)"

subsection \<open>The summary of the \<open>duration\<close> column\<close>

text \<open>
  \<open>quantile(0.95)\<close> is called without \<open>interpolation\<close>, whose default is
  \<open>'nearest'\<close>: the result is one element of the sorted column, never a value
  between two elements. Which index is "nearest" changed between releases of the
  library, and the repository pins none, so the model keeps both rules: the older one
  truncates \<open>n * q\<close> and clamps it to the last index, the newer one rounds the rank
  \<open>(n - 1) * q\<close> (halves upwards). The index is computed in exact arithmetic here.
\<close>

datatype release = Legacy | Current

fun nearest_idx :: "release \<Rightarrow> rat \<Rightarrow> nat \<Rightarrow> nat" where
  "nearest_idx Legacy q n = min (nat \<lfloor>of_nat n * q\<rfloor>) (n - 1)"
| "nearest_idx Current q n = nat \<lfloor>of_nat (n - 1) * q + 1 / 2\<rfloor>"

definition quantile :: "release \<Rightarrow> rat \<Rightarrow> rat list \<Rightarrow> rat" where
  "quantile v q ds = sort ds ! nearest_idx v q (length ds)"

text \<open>The one row of \<open>summary\<close>, with the aliases of the script as field names.\<close>

record summary =
  min_d :: rat
  avg :: f64
  p95 :: rat
  throughput :: f64

text \<open>
  Lines 26 to 31, on the frame \<open>df\<close>: a frame without rows has no columns (it was
  built from \<open>[]\<close>), so \<open>df["duration"]\<close> raises before anything is computed;
  otherwise the four aggregates of a non-empty column. The mean is the sum divided by
  the number of rows, the throughput the number of rows divided by the sum, both in
  doubles.
\<close>

definition aggregate :: "release \<Rightarrow> measurement list \<Rightarrow> error + summary" where
  "aggregate v df =
     (case map duration df of
        [] \<Rightarrow> Inl ColumnNotFoundError
      | d # ds \<Rightarrow>
          Inr \<lparr>min_d = fold min ds d,
               avg = fdiv (fsum (d # ds)) (Finite (of_nat (length (d # ds)))),
               p95 = quantile v (19 / 20) (d # ds),
               throughput = fdiv (Finite (of_nat (length df))) (fsum (d # ds))\<rparr>)"

text \<open>
  The 95th percentile in the words of the specification: linear interpolation between
  the two sorted elements around the rank \<open>0.95 * (n - 1)\<close>. It is defined for
  comparison only; the script does not compute it.
\<close>

definition p95_linear :: "rat list \<Rightarrow> rat" where
  "p95_linear ds =
     (let s = sort ds;
          r = of_nat (length ds - 1) * (19 / 20);
          lo = nat \<lfloor>r\<rfloor>;
          hi = nat \<lceil>r\<rceil>
      in s ! lo + (r - of_int \<lfloor>r\<rfloor>) * (s ! hi - s ! lo))"

subsection \<open>\<open>asyncio.gather\<close>\<close>

text \<open>
  \<open>gather(*aws)\<close> is awaited while the tasks complete one at a time, in the order
  \<open>sched\<close> of their indices. A task that returns has its value stored under its
  index; the first task that raises ends the wait at once with its exception
  (\<open>return_exceptions\<close> is left at \<open>False\<close>), whatever the other tasks did or would
  do. \<open>gather\<close> returns the values in the order of \<open>aws\<close> once every task has
  returned; while a task is missing it keeps waiting, which is the result \<open>None\<close>.
\<close>

fun gather_loop :: "(error + 'a) list \<Rightarrow> nat list \<Rightarrow> (nat \<rightharpoonup> 'a) \<Rightarrow> error + (nat \<rightharpoonup> 'a)" where
  "gather_loop aws [] got = Inr got"
| "gather_loop aws (i # sched) got =
     (if i < length aws then
        (case aws ! i of
           Inl e \<Rightarrow> Inl e
         | Inr r \<Rightarrow> gather_loop aws sched (got(i \<mapsto> r)))
      else gather_loop aws sched got)"

definition gather :: "nat list \<Rightarrow> (error + 'a) list \<Rightarrow> (error + 'a list) option" where
  "gather sched aws =
     (case gather_loop aws sched Map.empty of
        Inl e \<Rightarrow> Some (Inl e)
      | Inr got \<Rightarrow> map_option Inr (those (map got [0..<length aws])))"

subsection \<open>The run: \<open>main\<close>\<close>

text \<open>
  The data-frame library as a run meets it: its index rule for \<open>nearest\<close>, whether
  \<open>pl.DataFrame\<close> builds a frame from dictionaries with the given \<open>cost\<close> values
  (it raises on values it cannot give a common column type), and whether
  \<open>write_csv\<close> succeeds on a frame with the given \<open>cost\<close> column (it raises on
  values that CSV cannot hold, such as nested ones, and when the file cannot be
  written).
\<close>

record library =
  nearest :: release
  builds_frame :: "json list \<Rightarrow> bool"
  writes_csv :: "json list \<Rightarrow> bool"

text \<open>
  What a run meets: Python's \<open>repr\<close>, the data-frame library, what the \<open>i\<close>-th
  dispatch's \<open>client.post\<close> does, and the order in which the dispatches complete.
\<close>

record env =
  py_repr :: "json \<Rightarrow> ustr"
  polars :: library
  network :: "nat \<Rightarrow> string \<Rightarrow> exchange"
  completion :: "nat list"

text \<open>
  A data frame as it is printed or written as CSV: the column names and the rows.
  The \<open>cost\<close> values are carried as they came.
\<close>

datatype cell = CFloat f64 | CInt int | CObj json

record table =
  columns :: "string list"
  rows :: "cell list list"

text \<open>\<open>pl.DataFrame(results)\<close>: one row per dictionary; no column at all for \<open>[]\<close>.\<close>

definition frame_table :: "measurement list \<Rightarrow> table" where
  "frame_table df =
     (if df = [] then \<lparr>columns = [], rows = []\<rparr>
      else \<lparr>columns = [''duration'', ''size'', ''cost''],
            rows = map (\<lambda>m. [CFloat (Finite (duration m)), CInt (int (size_r m)), CObj (cost m)]) df\<rparr>)"

definition summary_table :: "summary \<Rightarrow> table" where
  "summary_table s =
     \<lparr>columns = [''min'', ''avg'', ''p95'', ''throughput''],
      rows = [[CFloat (Finite (min_d s)), CFloat (avg s), CFloat (Finite (p95 s)),
               CFloat (throughput s)]]\<rparr>"

text \<open>What a run can change: the standard output and the files.\<close>

record world =
  stdout :: "table list"
  files :: "string \<rightharpoonup> table"

text \<open>
  Lines 25 to 33 of \<open>main\<close>: \<open>df = pl.DataFrame(results)\<close>, which raises when the
  library cannot build the frame; the summary; \<open>print(summary)\<close>; and
  \<open>df.write_csv(Path("load_test_summary.csv"))\<close>, which receives \<open>df\<close> and which
  can raise after the summary has been printed, leaving the files as they were.
\<close>

definition report :: "library \<Rightarrow> measurement list \<Rightarrow> world \<Rightarrow> (error + unit) \<times> world" where
  "report lib results w =
     (if results \<noteq> [] \<and> \<not> builds_frame lib (map cost results) then (Inl DataFrameError, w)
      else
        let df = results in
        case aggregate (nearest lib) df of
          Inl e \<Rightarrow> (Inl e, w)
        | Inr s \<Rightarrow>
            if writes_csv lib (map cost df) then
              (Inr (),
               w\<lparr>stdout := stdout w @ [summary_table s],
                 files := (files w)(''load_test_summary.csv'' \<mapsto> frame_table df)\<rparr>)
            else (Inl WriteCsvError, w\<lparr>stdout := stdout w @ [summary_table s]\<rparr>))"

text \<open>Line 23: the results of all dispatches, as \<open>gather\<close> hands them to \<open>main\<close>.\<close>

definition gather_results :: "env \<Rightarrow> string list \<Rightarrow> (error + measurement list) option" where
  "gather_results env queries =
     gather (completion env)
       (map (\<lambda>(i, q). send_query (py_repr env) (network env i) q) (enumerate 0 queries))"

text \<open>
  \<open>main\<close> has no \<open>try\<close> either: an exception of \<open>gather\<close> or of the summary ends
  the run, and \<open>asyncio.run(main())\<close> ends the process with it. \<open>None\<close>: the run
  does not return.
\<close>

definition main :: "env \<Rightarrow> string list \<Rightarrow> world \<Rightarrow> ((error + unit) \<times> world) option" where
  "main env queries w =
     (case gather_results env queries of
        None \<Rightarrow> None
      | Some (Inl e) \<Rightarrow> Some (Inl e, w)
      | Some (Inr results) \<Rightarrow> Some (report (polars env) results w))"

text \<open>The exit status of the process: 1 after an uncaught exception, else 0.\<close>

definition exit_status :: "error + unit \<Rightarrow> nat" where
  "exit_status r = (case r of Inl e \<Rightarrow> 1 | Inr u \<Rightarrow> 0)"

text \<open>The queries of the script: ten times the same two lines.\<close>

definition QUERIES :: "string list" where
  "QUERIES =
     replicate 10
       (''df = pl.read_parquet('data/sample_0.parquet')'' @ [CHR 0x0A] @
        ''df = df.select(['name','age'])'')"

text \<open>A measurement with the duration \<open>d\<close> and nothing else, for the examples below.\<close>

definition timed :: "rat \<Rightarrow> measurement" where
  "timed d = \<lparr>duration = d, size_r = 0, cost = JNull\<rparr>"

subsection \<open>Example runs\<close>

text \<open>
  A stand-in for \<open>repr\<close> in the examples, which apply it to \<open>None\<close>, \<open>True\<close> and
  \<open>False\<close> at most.
\<close>

fun example_repr :: "json \<Rightarrow> ustr" where
  "example_repr JNull = [78, 111, 110, 101]"
| "example_repr (JBool True) = [84, 114, 117, 101]"
| "example_repr (JBool False) = [70, 97, 108, 115, 101]"
| "example_repr v = []"

text \<open>
  A server that answers every dispatch after an eighth of a second with the output
  \<open>"ok"\<close> and the cost 3, and one whose second dispatch gets no response and whose
  third gets a body that is not JSON.
\<close>

definition steady_server :: "nat \<Rightarrow> string \<Rightarrow> exchange" where
  "steady_server i q =
     \<lparr>started = of_nat i / 1024, finished = of_nat i / 1024 + 1 / 8,
      reply = Body (Some (JObj [(''output'', JStr [111, 107]), (''cost'', JInt 3)]))\<rparr>"

definition flaky_server :: "nat \<Rightarrow> string \<Rightarrow> exchange" where
  "flaky_server i q =
     (if i = 1 then (steady_server i q)\<lparr>reply := NoReply\<rparr>
      else if i = 2 then (steady_server i q)\<lparr>reply := Body None\<rparr>
      else steady_server i q)"

text \<open>
  A server whose \<open>i\<close>-th dispatch takes \<open>i + 1\<close> tenths of a second and returns an
  output of \<open>i\<close> characters and no cost: the dispatches can be told apart.
\<close>

definition staggered_server :: "nat \<Rightarrow> string \<Rightarrow> exchange" where
  "staggered_server i q =
     \<lparr>started = 0, finished = of_nat (i + 1) / 10,
      reply = Body (Some (JObj [(''output'', JStr (replicate i 120))]))\<rparr>"

text \<open>
  A stand-in for the library in the examples: it builds and writes a \<open>cost\<close> column
  of nulls and 64-bit integers, which the library does, and nothing else.
\<close>

fun plain_cost :: "json \<Rightarrow> bool" where
  "plain_cost JNull = True"
| "plain_cost (JInt i) = (- (2 ^ 63) \<le> i \<and> i < 2 ^ 63)"
| "plain_cost v = False"

definition example_library :: library where
  "example_library =
     \<lparr>nearest = Current, builds_frame = list_all plain_cost, writes_csv = list_all plain_cost\<rparr>"

definition example_env :: env where
  "example_env =
     \<lparr>py_repr = example_repr, polars = example_library, network = steady_server,
      completion = [3, 1, 2, 0, 4, 9, 8, 7, 6, 5]\<rparr>"

definition fresh_world :: world where
  "fresh_world = \<lparr>stdout = [], files = Map.empty\<rparr>"
section \<open>Properties\<close>

subsection \<open>Rounding\<close>

text \<open>The exponent that \<open>ilog2\<close> computes is the binary order of magnitude.\<close>

declare bit_length.simps [simp del]

lemma bit_length_bounds:
  "0 < n \<Longrightarrow> 2 ^ (bit_length n - 1) \<le> n \<and> n < 2 ^ bit_length n"
proof (induction n rule: bit_length.induct)
  case (1 n)
  show ?case
  proof (cases "n div 2 = 0")
    case True
    with 1 have "n = 1" by (simp add: div_eq_0_iff)
    then show ?thesis by (simp add: bit_length.simps)
  next
    case False
    then have pos: "0 < n div 2" by simp
    from 1 have n0: "n \<noteq> 0" by simp
    from "1.IH" [OF n0 pos] have lo: "2 ^ (bit_length (n div 2) - 1) \<le> n div 2"
      and hi: "n div 2 < 2 ^ bit_length (n div 2)" by simp_all
    have b: "bit_length n = Suc (bit_length (n div 2))" using n0 by (simp add: bit_length.simps)
    have bpos: "0 < bit_length (n div 2)" using pos by (simp add: bit_length.simps [of "n div 2"])
    have "2 * 2 ^ (bit_length (n div 2) - 1) \<le> 2 * (n div 2)" using lo by simp
    also have "\<dots> \<le> n" by simp
    finally have "2 ^ (bit_length n - 1) \<le> n" using b bpos
      by (simp add: power_Suc [symmetric] del: power_Suc)
    moreover have "n < 2 * 2 ^ bit_length (n div 2)" using hi by arith
    ultimately show ?thesis using b by simp
  qed
qed

lemma ilog2_bounds:
  assumes "0 < a"
  shows "2 powi ilog2 a \<le> a \<and> a < 2 powi (ilog2 a + 1)"
proof -
  obtain p q where pq: "quotient_of a = (p, q)" by (cases "quotient_of a")
  have q: "0 < q" using pq by (rule quotient_of_denom_pos)
  have a: "a = of_int p / of_int q" using pq by (rule quotient_of_div)
  have p: "0 < p" using assms q unfolding a by (simp add: zero_less_divide_iff)
  define bp where "bp = bit_length (nat p)"
  define bq where "bq = bit_length (nat q)"
  define d where "d = int bp - int bq"
  from bit_length_bounds [of "nat p"] p
  have plo: "2 ^ (bp - 1) \<le> nat p" and phi: "nat p < 2 ^ bp" by (simp_all add: bp_def)
  from bit_length_bounds [of "nat q"] q
  have qlo: "2 ^ (bq - 1) \<le> nat q" and qhi: "nat q < 2 ^ bq" by (simp_all add: bq_def)
  have bp0: "0 < bp" using phi p by (cases bp) auto
  have bq0: "0 < bq" using qhi q by (cases bq) auto
  have P: "(of_int p :: rat) = of_nat (nat p)" and Q: "(of_int q :: rat) = of_nat (nat q)"
    using p q by simp_all
  have plo': "(2::rat) ^ (bp - 1) \<le> of_int p" unfolding P using plo
    by (metis of_nat_le_iff of_nat_numeral of_nat_power)
  have phi': "of_int p < (2::rat) ^ bp" unfolding P using phi
    by (metis of_nat_less_iff of_nat_numeral of_nat_power)
  have qlo': "(2::rat) ^ (bq - 1) \<le> of_int q" unfolding Q using qlo
    by (metis of_nat_le_iff of_nat_numeral of_nat_power)
  have qhi': "of_int q < (2::rat) ^ bq" unfolding Q using qhi
    by (metis of_nat_less_iff of_nat_numeral of_nat_power)
  have qpos: "(0::rat) < of_int q" using q by simp
  have bpm: "(2::rat) ^ bp = 2 * 2 ^ (bp - 1)" using bp0 by (cases bp) simp_all
  have bqm: "(2::rat) ^ bq = 2 * 2 ^ (bq - 1)" using bq0 by (cases bq) simp_all
  have dpow: "(2::rat) powi d = 2 ^ bp / 2 ^ bq"
    unfolding d_def by (simp add: power_int_diff)
  have upper: "a < 2 powi (d + 1)"
  proof -
    have "a * of_int q = of_int p" unfolding a using qpos by simp
    also have "\<dots> < 2 ^ bp" by (rule phi')
    also have "\<dots> = 2 powi (d + 1) * 2 ^ (bq - 1)"
      by (simp add: power_int_add dpow bqm)
    also have "\<dots> \<le> 2 powi (d + 1) * of_int q"
      using qlo' by (intro mult_left_mono) simp_all
    finally show ?thesis using qpos by simp
  qed
  have lower: "2 powi (d - 1) \<le> a"
  proof -
    have "(2::rat) powi (d - 1) * of_int q \<le> 2 powi (d - 1) * 2 ^ bq"
      using qhi' by (intro mult_left_mono) simp_all
    also have "\<dots> = 2 ^ (bp - 1)"
      by (simp add: power_int_diff dpow bpm)
    also have "\<dots> \<le> of_int p" by (rule plo')
    also have "\<dots> = a * of_int q" unfolding a using qpos by simp
    finally show ?thesis using qpos by simp
  qed
  have il: "ilog2 a = (if 2 powi d \<le> a then d else d - 1)"
    by (simp add: ilog2_def pq Let_def d_def bp_def bq_def)
  show ?thesis
  proof (cases "2 powi d \<le> a")
    case True
    with il upper show ?thesis by simp
  next
    case False
    with il lower show ?thesis by simp
  qed
qed

lemma ilog2_unique:
  assumes "2 powi k \<le> a" "a < 2 powi (k + 1)"
  shows "ilog2 a = k"
proof -
  have pos: "0 < a" using assms(1) by (rule less_le_trans [rotated]) simp
  from ilog2_bounds [OF pos] have lo: "2 powi ilog2 a \<le> a" and hi: "a < 2 powi (ilog2 a + 1)"
    by simp_all
  have "(2::rat) powi k < 2 powi (ilog2 a + 1)" using assms(1) hi by simp
  then have "k < ilog2 a + 1"
    by (metis not_le power_int_increasing one_le_numeral leD)
  moreover have "(2::rat) powi ilog2 a < 2 powi (k + 1)" using lo assms(2) by simp
  then have "ilog2 a < k + 1"
    by (metis not_le power_int_increasing one_le_numeral leD)
  ultimately show ?thesis by simp
qed

lemma round_half_even_le: "round_half_even y \<le> \<lfloor>y\<rfloor> + 1"
  by (simp add: round_half_even_def Let_def)

text \<open>
  Rounding a positive number of known magnitude, below the overflow threshold: the
  form in which the examples evaluate \<open>round64\<close>.
\<close>

lemma round64_at:
  assumes x: "0 < x"
    and lo: "2 powi (e + 52) \<le> x" and hi: "x < 2 powi (e + 53)"
    and e: "- 1074 \<le> e" "e \<le> 970"
  shows "round64 x = Finite (of_int (round_half_even (x / 2 powi e)) * 2 powi e)"
proof -
  define m where "m = round_half_even (x / 2 powi e)"
  have k: "ilog2 x = e + 52"
    using lo hi by (intro ilog2_unique) (simp_all add: add.commute add.left_commute)
  have ee: "max (ilog2 x - 52) (- 1074) = e" using k e by simp
  define y where "y = x / 2 powi e"
  have "y < 2 powi (e + 53) / 2 powi e"
    unfolding y_def using hi by (simp add: divide_strict_right_mono)
  also have "\<dots> = of_int (2 ^ 53)" by (simp add: power_int_add)
  finally have y: "y < of_int (2 ^ 53)" .
  then have "\<lfloor>y\<rfloor> < 2 ^ 53" by (simp only: floor_less_iff)
  moreover have "m \<le> \<lfloor>y\<rfloor> + 1" unfolding m_def y_def by (rule round_half_even_le)
  ultimately have "m \<le> 2 ^ 53" by linarith
  then have "(of_int m :: rat) \<le> of_int (2 ^ 53)" by (simp only: of_int_le_iff)
  then have "(of_int m :: rat) \<le> 2 powi 53" by simp
  then have "of_int m * 2 powi e \<le> 2 powi 53 * (2::rat) powi e"
    by (intro mult_right_mono) simp_all
  also have "\<dots> = 2 powi (e + 53)" by (simp add: power_int_add)
  also have "\<dots> < 2 powi 1024" using e by (intro power_int_strict_increasing) simp_all
  finally have no: "\<not> 2 powi 1024 \<le> of_int m * (2::rat) powi e" by simp
  have "round64 x =
      (if (2::rat) powi 1024 \<le> of_int m * 2 powi e then PosInf else Finite (of_int m * 2 powi e))"
    using x unfolding round64_def Let_def abs_of_pos [OF x] ee m_def
    by (simp only: if_True if_False less_irrefl not_sym [OF less_imp_neq])
  then show ?thesis using no unfolding m_def by (simp only: if_False)
qed

lemma round_half_even_ge: "\<lfloor>y\<rfloor> \<le> round_half_even y"
  by (simp add: round_half_even_def Let_def)

lemma round_half_even_error: "\<bar>of_int (round_half_even y) - y\<bar> \<le> 1 / 2"
proof -
  have "of_int \<lfloor>y\<rfloor> \<le> y" "y < of_int \<lfloor>y\<rfloor> + 1" by linarith+
  then show ?thesis
    by (auto simp: round_half_even_def Let_def abs_le_iff) 
qed

text \<open>In the normal range rounding changes a number by the unit roundoff at most, relatively.\<close>

lemma round64_rel:
  assumes lo: "2 powi (- 1022) \<le> x" and hi: "x < 2 powi 1023"
  shows "\<exists>r. round64 x = Finite r \<and> 2 powi ilog2 x \<le> r \<and>
           x * (1 - unit_roundoff) \<le> r \<and> r \<le> x * (1 + unit_roundoff)"
proof -
  have x: "0 < x" using lo by (rule less_le_trans [rotated]) simp
  define k where "k = ilog2 x"
  from ilog2_bounds [OF x] have klo: "2 powi k \<le> x" and khi: "x < 2 powi (k + 1)"
    by (simp_all add: k_def)
  have "(2::rat) powi (- 1022) < 2 powi (k + 1)" using lo khi by simp
  then have k1: "- 1022 < k + 1" by (metis not_le power_int_increasing one_le_numeral leD)
  have "(2::rat) powi k < 2 powi 1023" using klo hi by simp
  then have k2: "k < 1023" by (metis not_le power_int_increasing one_le_numeral leD)
  define e where "e = k - 52"
  have e: "- 1074 \<le> e" "e \<le> 970" using k1 k2 by (simp_all add: e_def)
  have "e + 52 = k" "e + 53 = k + 1" by (simp_all add: e_def)
  then have lo': "2 powi (e + 52) \<le> x" and hi': "x < 2 powi (e + 53)"
    using klo khi by (simp_all only:)
  define y where "y = x / 2 powi e"
  define m where "m = round_half_even y"
  have r: "round64 x = Finite (of_int m * 2 powi e)"
    using round64_at [OF x lo' hi' e] by (simp add: m_def y_def)
  have pe: "(0::rat) < 2 powi e" by simp
  have xy: "x = y * 2 powi e" by (simp add: y_def)
  have "2 powi (e + 52) / 2 powi e \<le> y" unfolding y_def using lo' by (simp add: divide_right_mono)
  then have ylo: "of_int (2 ^ 52) \<le> y" by (simp add: power_int_add)
  then have "2 ^ 52 \<le> \<lfloor>y\<rfloor>" by (simp only: le_floor_iff)
  then have "2 ^ 52 \<le> m" using round_half_even_ge [of y] unfolding m_def by linarith
  then have "(of_int (2 ^ 52) :: rat) \<le> of_int m" by (simp only: of_int_le_iff)
  then have "(of_int (2 ^ 52) :: rat) * 2 powi e \<le> of_int m * 2 powi e"
    by (intro mult_right_mono) simp_all
  moreover have "(of_int (2 ^ 52) :: rat) * 2 powi e = 2 powi k"
    by (simp add: e_def power_int_diff)
  ultimately have A: "(2::rat) powi ilog2 x \<le> of_int m * 2 powi e"
    by (simp only: k_def)
  have err: "\<bar>of_int m - y\<bar> \<le> 1 / 2" unfolding m_def by (rule round_half_even_error)
  have yu: "1 / 2 \<le> y * unit_roundoff"
  proof -
    have "(1 / 2 :: rat) = of_int (2 ^ 52) * unit_roundoff" by (simp add: unit_roundoff_def)
    also have "\<dots> \<le> y * unit_roundoff" using ylo by (intro mult_right_mono) (simp_all add: unit_roundoff_def)
    finally show ?thesis .
  qed
  have "\<bar>of_int m - y\<bar> \<le> y * unit_roundoff" using err yu by linarith
  then have "y - y * unit_roundoff \<le> of_int m" "of_int m \<le> y + y * unit_roundoff" by linarith+
  then have "(y - y * unit_roundoff) * 2 powi e \<le> of_int m * 2 powi e"
    "of_int m * 2 powi e \<le> (y + y * unit_roundoff) * 2 powi e"
    using pe by (simp_all add: mult_right_mono)
  then have B: "x * (1 - unit_roundoff) \<le> of_int m * (2::rat) powi e"
    and C: "of_int m * (2::rat) powi e \<le> x * (1 + unit_roundoff)"
    unfolding xy by (simp_all add: algebra_simps)
  show ?thesis using r A B C by blast
qed

lemma fsum_Nil: "fsum [] = Finite 0"
  by (simp add: fsum_def)

lemma fsum_snoc: "fsum (ds @ [d]) = fadd (fsum ds) (Finite d)"
  by (simp add: fsum_def)

text \<open>Floors of rational numerals, and the two index rules at \<open>q = 0.95\<close>.\<close>

lemma floor_rat_numeral: "\<lfloor>(numeral a :: rat) / numeral b\<rfloor> = numeral a div numeral b"
  by (metis floor_divide_of_int_eq of_int_numeral)

lemma ceiling_rat_numeral: "\<lceil>(numeral a :: rat) / numeral b\<rceil> = - (- numeral a div numeral b)"
  by (metis ceiling_def floor_divide_of_int_eq minus_divide_left of_int_minus of_int_numeral)

text \<open>The roundings that the examples meet.\<close>

lemma round64_literals:
  shows "round64 (1 / 10) = Finite (3602879701896397 / 36028797018963968)"
    and "round64 (1 / 5) = Finite (3602879701896397 / 18014398509481984)"
    and "round64 (7 / 10) = Finite (3152519739159347 / 4503599627370496)"
    and "round64 (1 / 2) = Finite (1 / 2)"
proof -
  show "round64 (1 / 10) = Finite (3602879701896397 / 36028797018963968)"
    using round64_at [where x = "1 / 10" and e = "- 56"]
    by (simp add: round_half_even_def floor_rat_numeral)
  show "round64 (1 / 5) = Finite (3602879701896397 / 18014398509481984)"
    using round64_at [where x = "1 / 5" and e = "- 55"]
    by (simp add: round_half_even_def floor_rat_numeral)
  show "round64 (7 / 10) = Finite (3152519739159347 / 4503599627370496)"
    using round64_at [where x = "7 / 10" and e = "- 53"]
    by (simp add: round_half_even_def floor_rat_numeral)
  show "round64 (1 / 2) = Finite (1 / 2)"
    using round64_at [where x = "1 / 2" and e = "- 53"]
    by (simp add: round_half_even_def floor_rat_numeral)
qed

lemma round64_eighths:
  shows "round64 (1 / 8) = Finite (1 / 8)"
    and "round64 (1 / 4) = Finite (1 / 4)"
    and "round64 (3 / 8) = Finite (3 / 8)"
    and "round64 (1 / 2) = Finite (1 / 2)"
    and "round64 (5 / 8) = Finite (5 / 8)"
    and "round64 (3 / 4) = Finite (3 / 4)"
    and "round64 (7 / 8) = Finite (7 / 8)"
    and "round64 (1) = Finite (1)"
    and "round64 (9 / 8) = Finite (9 / 8)"
    and "round64 (5 / 4) = Finite (5 / 4)"
    and "round64 (8) = Finite (8)"
proof -
  show "round64 (1 / 8) = Finite (1 / 8)"
    using round64_at [where x = "1 / 8" and e = "- 55"]
    by (simp add: round_half_even_def floor_rat_numeral)
  show "round64 (1 / 4) = Finite (1 / 4)"
    using round64_at [where x = "1 / 4" and e = "- 54"]
    by (simp add: round_half_even_def floor_rat_numeral)
  show "round64 (3 / 8) = Finite (3 / 8)"
    using round64_at [where x = "3 / 8" and e = "- 54"]
    by (simp add: round_half_even_def floor_rat_numeral)
  show "round64 (1 / 2) = Finite (1 / 2)"
    using round64_at [where x = "1 / 2" and e = "- 53"]
    by (simp add: round_half_even_def floor_rat_numeral)
  show "round64 (5 / 8) = Finite (5 / 8)"
    using round64_at [where x = "5 / 8" and e = "- 53"]
    by (simp add: round_half_even_def floor_rat_numeral)
  show "round64 (3 / 4) = Finite (3 / 4)"
    using round64_at [where x = "3 / 4" and e = "- 53"]
    by (simp add: round_half_even_def floor_rat_numeral)
  show "round64 (7 / 8) = Finite (7 / 8)"
    using round64_at [where x = "7 / 8" and e = "- 53"]
    by (simp add: round_half_even_def floor_rat_numeral)
  show "round64 (1) = Finite (1)"
    using round64_at [where x = "1" and e = "- 52"]
    by (simp add: round_half_even_def floor_rat_numeral)
  show "round64 (9 / 8) = Finite (9 / 8)"
    using round64_at [where x = "9 / 8" and e = "- 52"]
    by (simp add: round_half_even_def floor_rat_numeral)
  show "round64 (5 / 4) = Finite (5 / 4)"
    using round64_at [where x = "5 / 4" and e = "- 52"]
    by (simp add: round_half_even_def floor_rat_numeral)
  show "round64 (8) = Finite (8)"
    using round64_at [where x = "8" and e = "- 49"]
    by (simp add: round_half_even_def floor_rat_numeral)
qed

lemma round64_three_tenths:
  shows "round64 (3602879701896397 / 36028797018963968) = Finite (3602879701896397 / 36028797018963968)"
    and "round64 (3602879701896397 / 18014398509481984) = Finite (3602879701896397 / 18014398509481984)"
    and "round64 (10808639105689191 / 36028797018963968) = Finite (1351079888211149 / 4503599627370496)"
    and "round64 (1351079888211149 / 13510798882111488) = Finite (7205759403792795 / 72057594037927936)"
proof -
  show "round64 (3602879701896397 / 36028797018963968) = Finite (3602879701896397 / 36028797018963968)"
    using round64_at [where x = "3602879701896397 / 36028797018963968" and e = "- 56"]
    by (simp add: round_half_even_def floor_rat_numeral)
  show "round64 (3602879701896397 / 18014398509481984) = Finite (3602879701896397 / 18014398509481984)"
    using round64_at [where x = "3602879701896397 / 18014398509481984" and e = "- 55"]
    by (simp add: round_half_even_def floor_rat_numeral)
  show "round64 (10808639105689191 / 36028797018963968) = Finite (1351079888211149 / 4503599627370496)"
    using round64_at [where x = "10808639105689191 / 36028797018963968" and e = "- 54"]
    by (simp add: round_half_even_def floor_rat_numeral)
  show "round64 (1351079888211149 / 13510798882111488) = Finite (7205759403792795 / 72057594037927936)"
    using round64_at [where x = "1351079888211149 / 13510798882111488" and e = "- 56"]
    by (simp add: round_half_even_def floor_rat_numeral)
qed

lemma round64_three_sevens:
  shows "round64 (3152519739159347 / 4503599627370496) = Finite (3152519739159347 / 4503599627370496)"
    and "round64 (3152519739159347 / 2251799813685248) = Finite (3152519739159347 / 2251799813685248)"
    and "round64 (9457559217478041 / 4503599627370496) = Finite (1182194902184755 / 562949953421312)"
    and "round64 (1182194902184755 / 1688849860263936) = Finite (6305039478318693 / 9007199254740992)"
proof -
  show "round64 (3152519739159347 / 4503599627370496) = Finite (3152519739159347 / 4503599627370496)"
    using round64_at [where x = "3152519739159347 / 4503599627370496" and e = "- 53"]
    by (simp add: round_half_even_def floor_rat_numeral)
  show "round64 (3152519739159347 / 2251799813685248) = Finite (3152519739159347 / 2251799813685248)"
    using round64_at [where x = "3152519739159347 / 2251799813685248" and e = "- 52"]
    by (simp add: round_half_even_def floor_rat_numeral)
  show "round64 (9457559217478041 / 4503599627370496) = Finite (1182194902184755 / 562949953421312)"
    using round64_at [where x = "9457559217478041 / 4503599627370496" and e = "- 51"]
    by (simp add: round_half_even_def floor_rat_numeral)
  show "round64 (1182194902184755 / 1688849860263936) = Finite (6305039478318693 / 9007199254740992)"
    using round64_at [where x = "1182194902184755 / 1688849860263936" and e = "- 53"]
    by (simp add: round_half_even_def floor_rat_numeral)
qed

lemma round64_permuted:
  shows "round64 (3602879701896397 / 18014398509481984) = Finite (3602879701896397 / 18014398509481984)"
    and "round64 (12610078956637389 / 18014398509481984) = Finite (3152519739159347 / 4503599627370496)"
    and "round64 (28823037615171173 / 36028797018963968) = Finite (7205759403792793 / 9007199254740992)"
    and "round64 (27021597764222976 / 7205759403792793) = Finite (8444249301319681 / 2251799813685248)"
    and "round64 (3602879701896397 / 36028797018963968) = Finite (3602879701896397 / 36028797018963968)"
    and "round64 (10808639105689191 / 36028797018963968) = Finite (1351079888211149 / 4503599627370496)"
    and "round64 (3602879701896397 / 4503599627370496) = Finite (3602879701896397 / 4503599627370496)"
    and "round64 (13510798882111488 / 3602879701896397) = Finite (15 / 4)"
proof -
  show "round64 (3602879701896397 / 18014398509481984) = Finite (3602879701896397 / 18014398509481984)"
    using round64_at [where x = "3602879701896397 / 18014398509481984" and e = "- 55"]
    by (simp add: round_half_even_def floor_rat_numeral)
  show "round64 (12610078956637389 / 18014398509481984) = Finite (3152519739159347 / 4503599627370496)"
    using round64_at [where x = "12610078956637389 / 18014398509481984" and e = "- 53"]
    by (simp add: round_half_even_def floor_rat_numeral)
  show "round64 (28823037615171173 / 36028797018963968) = Finite (7205759403792793 / 9007199254740992)"
    using round64_at [where x = "28823037615171173 / 36028797018963968" and e = "- 53"]
    by (simp add: round_half_even_def floor_rat_numeral)
  show "round64 (27021597764222976 / 7205759403792793) = Finite (8444249301319681 / 2251799813685248)"
    using round64_at [where x = "27021597764222976 / 7205759403792793" and e = "- 51"]
    by (simp add: round_half_even_def floor_rat_numeral)
  show "round64 (3602879701896397 / 36028797018963968) = Finite (3602879701896397 / 36028797018963968)"
    using round64_at [where x = "3602879701896397 / 36028797018963968" and e = "- 56"]
    by (simp add: round_half_even_def floor_rat_numeral)
  show "round64 (10808639105689191 / 36028797018963968) = Finite (1351079888211149 / 4503599627370496)"
    using round64_at [where x = "10808639105689191 / 36028797018963968" and e = "- 54"]
    by (simp add: round_half_even_def floor_rat_numeral)
  show "round64 (3602879701896397 / 4503599627370496) = Finite (3602879701896397 / 4503599627370496)"
    using round64_at [where x = "3602879701896397 / 4503599627370496" and e = "- 53"]
    by (simp add: round_half_even_def floor_rat_numeral)
  show "round64 (13510798882111488 / 3602879701896397) = Finite (15 / 4)"
    using round64_at [where x = "13510798882111488 / 3602879701896397" and e = "- 51"]
    by (simp add: round_half_even_def floor_rat_numeral)
qed


subsection \<open>Auxiliary facts\<close>

lemma aggregate_empty: "aggregate v [] = Inl ColumnNotFoundError"
  by (simp add: aggregate_def)

text \<open>The two index rules at \<open>q = 0.95\<close>.\<close>

lemma nearest_idx_Legacy_95: "nearest_idx Legacy (19 / 20) n = min (19 * n div 20) (n - 1)"
proof -
  have "of_nat n * (19 / 20 :: rat) = of_int (19 * int n) / of_int 20" by simp
  then have "\<lfloor>of_nat n * (19 / 20 :: rat)\<rfloor> = (19 * int n) div 20"
    by (simp only: floor_divide_of_int_eq)
  then show ?thesis by (simp add: nat_div_distrib nat_mult_distrib)
qed

lemma nearest_idx_Current_95: "nearest_idx Current (19 / 20) n = (19 * (n - 1) + 10) div 20"
proof -
  have "of_nat (n - 1) * (19 / 20 :: rat) + 1 / 2 = of_int (19 * int (n - 1) + 10) / of_int 20" by simp
  then have "\<lfloor>of_nat (n - 1) * (19 / 20 :: rat) + 1 / 2\<rfloor> = (19 * int (n - 1) + 10) div 20"
    by (simp only: floor_divide_of_int_eq)
  then show ?thesis by (simp add: nat_div_distrib nat_mult_distrib nat_add_distrib)
qed

lemma nearest_idx_less: "0 < n \<Longrightarrow> nearest_idx v (19 / 20) n < n"
proof (cases v)
  case Legacy
  assume "0 < n"
  then show ?thesis unfolding Legacy nearest_idx_Legacy_95 by simp
next
  case Current
  assume "0 < n"
  then have "19 * (n - 1) + 10 < n * 20" by simp
  then have "(19 * (n - 1) + 10) div 20 < n" by (simp only: div_less_iff_less_mult)
  then show ?thesis unfolding Current nearest_idx_Current_95 .
qed

lemma nearest_idx_integral_rank:
  assumes "n - 1 = 20 * j"
  shows "nearest_idx v (19 / 20) n = 19 * j"
proof (cases v)
  case Legacy
  have "19 * n div 20 = 19 * j \<or> n = 0" using assms by (cases n) auto
  then show ?thesis unfolding Legacy nearest_idx_Legacy_95 using assms by auto
next
  case Current
  show ?thesis unfolding Current nearest_idx_Current_95 assms by simp
qed

lemma aggregate_nonempty:
  assumes "df \<noteq> []"
  shows "aggregate v df =
    Inr \<lparr>min_d = Min (set (map duration df)),
         avg = fdiv (fsum (map duration df)) (Finite (of_nat (length df))),
         p95 = quantile v (19 / 20) (map duration df),
         throughput = fdiv (Finite (of_nat (length df))) (fsum (map duration df))\<rparr>"
proof -
  obtain m ms where df: "df = m # ms" using assms by (cases df) auto
  have "fold min (map duration ms) (duration m) = Min (set (map duration (m # ms)))"
    by (simp only: list.map Min.set_eq_fold)
  then show ?thesis by (simp add: aggregate_def df)
qed

lemma sum_list_le_length_times:
  fixes xs :: "rat list"
  shows "(\<And>x. x \<in> set xs \<Longrightarrow> x \<le> m) \<Longrightarrow> sum_list xs \<le> of_nat (length xs) * m"
  by (induction xs) (auto simp: algebra_simps add_mono)

lemma sum_list_ge_length_times:
  fixes xs :: "rat list"
  shows "(\<And>x. x \<in> set xs \<Longrightarrow> m \<le> x) \<Longrightarrow> of_nat (length xs) * m \<le> sum_list xs"
  by (induction xs) (auto simp: algebra_simps add_mono)

lemma mean_between:
  fixes xs :: "rat list"
  assumes "xs \<noteq> []"
  shows "Min (set xs) \<le> sum_list xs / of_nat (length xs)"
    and "sum_list xs / of_nat (length xs) \<le> Max (set xs)"
proof -
  have n: "(0::rat) < of_nat (length xs)" using assms by simp
  have "of_nat (length xs) * Min (set xs) \<le> sum_list xs"
    by (rule sum_list_ge_length_times) simp
  then show "Min (set xs) \<le> sum_list xs / of_nat (length xs)"
    using n by (simp add: pos_le_divide_eq mult.commute)
  have "sum_list xs \<le> of_nat (length xs) * Max (set xs)"
    by (rule sum_list_le_length_times) simp
  then show "sum_list xs / of_nat (length xs) \<le> Max (set xs)"
    using n by (simp add: pos_divide_le_eq mult.commute)
qed

lemma quantile_mem: "ds \<noteq> [] \<Longrightarrow> quantile v (19 / 20) ds \<in> set ds"
proof -
  assume "ds \<noteq> []"
  then have "nearest_idx v (19 / 20) (length ds) < length (sort ds)"
    by (simp add: nearest_idx_less)
  then have "sort ds ! nearest_idx v (19 / 20) (length ds) \<in> set (sort ds)"
    by (rule nth_mem)
  then show ?thesis by (simp add: quantile_def)
qed

lemma p95_linear_integral_rank:
  assumes "length ds - 1 = 20 * j"
  shows "p95_linear ds = sort ds ! (19 * j)"
proof -
  have "of_nat (length ds - 1) * (19 / 20 :: rat) = of_int (int (19 * j))"
    unfolding assms by simp
  then show ?thesis
    unfolding p95_linear_def Let_def by (simp only: floor_of_int ceiling_of_int) (simp add: nat_mult_distrib)
qed

text \<open>What \<open>gather\<close> returned or raised, read back from its result.\<close>

lemma those_Some_nth:
  "those xs = Some ys \<Longrightarrow> length ys = length xs \<and> (\<forall>i<length xs. xs ! i = Some (ys ! i))"
proof (induction xs arbitrary: ys)
  case Nil
  then show ?case by simp
next
  case (Cons x xs)
  then obtain y zs where x: "x = Some y" and zs: "those xs = Some zs" and ys: "ys = y # zs"
    by (auto split: option.splits)
  from Cons.IH [OF zs] show ?case
    by (auto simp: x ys nth_Cons split: nat.splits)
qed

lemma those_map_Some:
  "(\<And>x. x \<in> set xs \<Longrightarrow> f x = Some (g x)) \<Longrightarrow> those (map f xs) = Some (map g xs)"
  by (induction xs) auto

lemma gather_loop_untouched:
  "gather_loop aws sched got = Inr got' \<Longrightarrow> i \<notin> set sched \<Longrightarrow> got' i = got i"
  by (induction sched arbitrary: got) (auto split: if_splits sum.splits)

lemma gather_loop_stored:
  "gather_loop aws sched got = Inr got' \<Longrightarrow> i \<in> set sched \<Longrightarrow> i < length aws \<Longrightarrow>
     \<exists>r. aws ! i = Inr r \<and> got' i = Some r"
proof (induction sched arbitrary: got)
  case Nil
  then show ?case by simp
next
  case (Cons k sched)
  show ?case
  proof (cases "k < length aws")
    case False
    with Cons show ?thesis by auto
  next
    case True
    then obtain r where r: "aws ! k = Inr r" and rest: "gather_loop aws sched (got(k \<mapsto> r)) = Inr got'"
      using Cons.prems(1) by (auto split: sum.splits)
    show ?thesis
    proof (cases "i \<in> set sched")
      case True
      then show ?thesis using Cons.IH [OF rest True Cons.prems(3)] by simp
    next
      case False
      then have ik: "i = k" using Cons.prems(2) by simp
      have "got' i = (got(k \<mapsto> r)) i" using rest False by (rule gather_loop_untouched)
      then show ?thesis using r ik by simp
    qed
  qed
qed

lemma gather_loop_raised:
  "gather_loop aws sched got = Inl e \<Longrightarrow> \<exists>i \<in> set sched. i < length aws \<and> aws ! i = Inl e"
  by (induction sched arbitrary: got) (auto split: if_splits sum.splits)

lemma gather_loop_raises:
  "i \<in> set sched \<Longrightarrow> i < length aws \<Longrightarrow> aws ! i = Inl e0 \<Longrightarrow> \<exists>e. gather_loop aws sched got = Inl e"
  by (induction sched arbitrary: got) (auto split: if_splits sum.splits)

lemma gather_returned:
  assumes "gather sched aws = Some (Inr rs)"
  shows "length rs = length aws"
    and "i < length aws \<Longrightarrow> i \<in> set sched \<and> aws ! i = Inr (rs ! i)"
proof -
  obtain got where loop: "gather_loop aws sched Map.empty = Inr got"
    and th: "those (map got [0..<length aws]) = Some rs"
    using assms by (auto simp: gather_def split: sum.splits)
  from those_Some_nth [OF th] have len: "length rs = length aws"
    and nth: "\<And>i. i < length aws \<Longrightarrow> got i = Some (rs ! i)" by auto
  show "length rs = length aws" by (rule len)
  assume i: "i < length aws"
  have mem: "i \<in> set sched"
  proof (rule ccontr)
    assume "i \<notin> set sched"
    with loop have "got i = Map.empty i" by (rule gather_loop_untouched)
    with nth [OF i] show False by simp
  qed
  from gather_loop_stored [OF loop mem i] nth [OF i]
  show "i \<in> set sched \<and> aws ! i = Inr (rs ! i)" using mem by auto
qed

lemma gather_raised:
  assumes "gather sched aws = Some (Inl e)"
  shows "\<exists>i \<in> set sched. i < length aws \<and> aws ! i = Inl e"
proof -
  have "gather_loop aws sched Map.empty = Inl e"
    using assms by (auto simp: gather_def split: sum.splits)
  then show ?thesis by (rule gather_loop_raised)
qed

lemma gather_raises:
  assumes "i \<in> set sched" "i < length aws" "aws ! i = Inl e0"
  shows "\<exists>e. gather sched aws = Some (Inl e)"
proof -
  from gather_loop_raises [OF assms] obtain e where "gather_loop aws sched Map.empty = Inl e" by blast
  then show ?thesis by (simp add: gather_def)
qed

lemma gather_all_returned:
  assumes ok: "\<And>i. i < length aws \<Longrightarrow> \<exists>r. aws ! i = Inr r"
    and all: "\<And>i. i < length aws \<Longrightarrow> i \<in> set sched"
  shows "gather sched aws = Some (Inr (map projr aws))"
proof -
  have "\<not> (\<exists>e. gather_loop aws sched Map.empty = Inl e)"
  proof
    assume "\<exists>e. gather_loop aws sched Map.empty = Inl e"
    then obtain e where "gather_loop aws sched Map.empty = Inl e" ..
    from gather_loop_raised [OF this] ok show False by fastforce
  qed
  then obtain got where loop: "gather_loop aws sched Map.empty = Inr got"
    by (cases "gather_loop aws sched Map.empty") auto
  have th: "those (map got [0..<length aws]) = Some (map (\<lambda>i. projr (aws ! i)) [0..<length aws])"
  proof (rule those_map_Some)
    fix i assume "i \<in> set [0..<length aws]"
    then have i: "i < length aws" by simp
    from gather_loop_stored [OF loop all [OF i] i]
    show "got i = Some (projr (aws ! i))" by auto
  qed
  have "map (\<lambda>i. projr (aws ! i)) [0..<length aws] = map projr aws"
    by (rule nth_equalityI) simp_all
  then have "those (map got [0..<length aws]) = Some (map projr aws)"
    using th by (simp only:)
  then show ?thesis unfolding gather_def loop by (simp only: sum.case option.map)
qed

text \<open>
  The rounded sum and the rounded mean of fewer than 128 durations in the normal range
  stay within the factors \<open>(1 \<plusminus> 2^(-53))^n\<close> of the exact ones.
\<close>

lemma unit_roundoff_bounds: "0 < unit_roundoff" "unit_roundoff < 1"
  by (simp_all add: unit_roundoff_def)

lemma fsum_rel:
  assumes range: "\<forall>d\<in>set ds. 2 powi (- 1000) \<le> d \<and> d \<le> 2 ^ 800"
    and len: "length ds < 128"
  shows "\<exists>s. fsum ds = Finite s \<and>
           sum_list ds * (1 - unit_roundoff) ^ length ds \<le> s \<and>
           s \<le> sum_list ds * (1 + unit_roundoff) ^ length ds \<and>
           (ds \<noteq> [] \<longrightarrow> 2 powi (- 1000) \<le> s) \<and> s < 2 powi 1023"
  using assms
proof (induction ds rule: rev_induct)
  case Nil
  then show ?case by (simp add: fsum_Nil)
next
  case (snoc d ds)
  let ?u = unit_roundoff
  let ?j = "length ds"
  let ?S = "sum_list ds"
  have u: "0 < ?u" "?u < 1" by (rule unit_roundoff_bounds)+
  from snoc.prems have r: "\<forall>d\<in>set ds. 2 powi (- 1000) \<le> d \<and> d \<le> 2 ^ 800"
    and l: "length ds < 128" and dlo: "2 powi (- 1000) \<le> d" and dhi: "d \<le> 2 ^ 800"
    and j: "?j < 127"
    by simp_all
  from snoc.IH [OF r l] obtain s where s: "fsum ds = Finite s"
    and slo: "?S * (1 - ?u) ^ ?j \<le> s" and shi: "s \<le> ?S * (1 + ?u) ^ ?j"
    by blast
  have dpos: "0 < d" using dlo by (rule less_le_trans [rotated]) simp
  have S0: "0 \<le> ?S"
  proof (rule sum_list_nonneg)
    fix x assume "x \<in> set ds"
    with r have "2 powi (- 1000) \<le> x" by blast
    then show "0 \<le> x" by (rule order_trans [rotated]) simp
  qed
  have SH: "?S \<le> of_nat ?j * 2 ^ 800"
    using r by (intro sum_list_le_length_times) blast
  have s0: "0 \<le> s"
  proof -
    have "0 \<le> ?S * (1 - ?u) ^ ?j" using S0 u by (intro mult_nonneg_nonneg zero_le_power) simp_all
    with slo show ?thesis by simp
  qed
  have pw: "(1 + ?u) ^ ?j \<le> 2 ^ 127"
  proof -
    have "(1 + ?u) ^ ?j \<le> 2 ^ ?j" using u by (intro power_mono) simp_all
    also have "\<dots> \<le> (2::rat) ^ 127" using j by (intro power_increasing) simp_all
    finally show ?thesis .
  qed
  have "?S \<le> 128 * 2 ^ 800"
  proof -
    have "(of_nat ?j :: rat) \<le> 128" using j by simp
    then have "(of_nat ?j :: rat) * 2 ^ 800 \<le> 128 * 2 ^ 800" by (intro mult_right_mono) simp_all
    with SH show ?thesis by (rule order_trans)
  qed
  then have "?S * (1 + ?u) ^ ?j \<le> (128 * 2 ^ 800) * 2 ^ 127"
    using S0 pw u by (intro mult_mono) simp_all
  with shi have sbig: "s \<le> (128 * 2 ^ 800) * 2 ^ 127" by (rule order_trans)
  define x where "x = s + d"
  have xlo: "2 powi (- 1000) \<le> x" using s0 dlo by (simp add: x_def)
  then have xlo': "2 powi (- 1022) \<le> x"
    by (rule order_trans [rotated]) (intro power_int_increasing, simp_all)
  have "x \<le> (128 * 2 ^ 800) * 2 ^ 127 + 2 ^ 800" using sbig dhi by (simp add: x_def)
  also have "\<dots> < (2::rat) powi 1023" by simp
  finally have xhi: "x < 2 powi 1023" .
  from round64_rel [OF xlo' xhi] obtain t where t: "round64 x = Finite t"
    and tk: "2 powi ilog2 x \<le> t" and tlo: "x * (1 - ?u) \<le> t" and thi: "t \<le> x * (1 + ?u)"
    by blast
  have f: "fsum (ds @ [d]) = Finite t" using t unfolding x_def by (simp add: fsum_snoc s)
  have xpos: "0 < x" using s0 dpos by (simp add: x_def)
  have "(2::rat) powi (- 1000) < 2 powi (ilog2 x + 1)"
    using xlo ilog2_bounds [OF xpos] by simp
  then have "- 1000 < ilog2 x + 1" by (metis not_le power_int_increasing one_le_numeral leD)
  then have "(2::rat) powi (- 1000) \<le> 2 powi ilog2 x" by (intro power_int_increasing) simp_all
  then have tL: "2 powi (- 1000) \<le> t" using tk by (rule order_trans)
  have up: "t \<le> (?S + d) * (1 + ?u) ^ Suc ?j"
  proof -
    have "d \<le> d * (1 + ?u) ^ ?j"
      using dpos u by (simp add: one_le_power)
    then have "x \<le> ?S * (1 + ?u) ^ ?j + d * (1 + ?u) ^ ?j" using shi by (simp add: x_def)
    then have "x \<le> (?S + d) * (1 + ?u) ^ ?j" by (simp add: algebra_simps)
    then have "x * (1 + ?u) \<le> ((?S + d) * (1 + ?u) ^ ?j) * (1 + ?u)"
      using u by (intro mult_right_mono) simp_all
    also have "\<dots> = (?S + d) * (1 + ?u) ^ Suc ?j" by (simp add: mult_ac)
    finally show ?thesis using thi by (rule order_trans [rotated])
  qed
  have down: "(?S + d) * (1 - ?u) ^ Suc ?j \<le> t"
  proof -
    have "(1 - ?u) ^ ?j \<le> 1" using u by (intro power_le_one) simp_all
    then have "d * (1 - ?u) ^ ?j \<le> d" using dpos by simp
    then have "?S * (1 - ?u) ^ ?j + d * (1 - ?u) ^ ?j \<le> x" using slo by (simp add: x_def)
    then have "(?S + d) * (1 - ?u) ^ ?j \<le> x" by (simp add: algebra_simps)
    then have "((?S + d) * (1 - ?u) ^ ?j) * (1 - ?u) \<le> x * (1 - ?u)"
      using u by (intro mult_right_mono) simp_all
    moreover have "((?S + d) * (1 - ?u) ^ ?j) * (1 - ?u) = (?S + d) * (1 - ?u) ^ Suc ?j"
      by (simp add: mult_ac)
    ultimately show ?thesis using tlo by (simp only: order_trans)
  qed
  have "t \<le> x * 2"
  proof -
    have "x * (1 + ?u) \<le> x * 2" using xpos u by (intro mult_left_mono) simp_all
    with thi show ?thesis by (rule order_trans)
  qed
  also have "\<dots> \<le> ((128 * 2 ^ 800) * 2 ^ 127 + 2 ^ 800) * 2"
    using \<open>x \<le> (128 * 2 ^ 800) * 2 ^ 127 + 2 ^ 800\<close> by (intro mult_right_mono) simp_all
  also have "\<dots> < (2::rat) powi 1023" by simp
  finally have tH: "t < 2 powi 1023" .
  show ?case using f up down tL tH by simp
qed

lemma mean_rel:
  assumes range: "\<forall>d\<in>set ds. 2 powi (- 1000) \<le> d \<and> d \<le> 2 ^ 800"
    and len: "length ds < 128" and ne: "ds \<noteq> []"
  shows "\<exists>a. fdiv (fsum ds) (Finite (of_nat (length ds))) = Finite a \<and>
           Min (set ds) * (1 - unit_roundoff) ^ Suc (length ds) \<le> a \<and>
           a \<le> Max (set ds) * (1 + unit_roundoff) ^ Suc (length ds)"
proof -
  let ?u = unit_roundoff
  let ?n = "length ds"
  let ?S = "sum_list ds"
  have u: "0 < ?u" "?u < 1" by (rule unit_roundoff_bounds)+
  from fsum_rel [OF range len] ne obtain s where s: "fsum ds = Finite s"
    and slo: "?S * (1 - ?u) ^ ?n \<le> s" and shi: "s \<le> ?S * (1 + ?u) ^ ?n"
    and sL: "2 powi (- 1000) \<le> s" and sH: "s < 2 powi 1023"
    by blast
  have n: "(1::rat) \<le> of_nat ?n" "(of_nat ?n :: rat) \<le> 128" using ne len
    by (simp_all add: Suc_leI)
  then have npos: "(0::rat) < of_nat ?n" by linarith
  define x where "x = s / of_nat ?n"
  have spos: "0 < s" using sL by (rule less_le_trans [rotated]) simp
  have "s / 128 \<le> x" unfolding x_def using n spos ne by (intro divide_left_mono) simp_all
  moreover have "2 powi (- 1000) / 128 \<le> s / 128" using sL by (simp add: divide_right_mono)
  moreover have "(2::rat) powi (- 1022) \<le> 2 powi (- 1000) / 128" by simp
  ultimately have xlo: "2 powi (- 1022) \<le> x" by linarith
  have "x \<le> s" unfolding x_def using n spos by (simp add: divide_le_eq mult_le_cancel_left1)
  then have xhi: "x < 2 powi 1023" using sH by linarith
  from round64_rel [OF xlo xhi] obtain a where a: "round64 x = Finite a"
    and alo: "x * (1 - ?u) \<le> a" and ahi: "a \<le> x * (1 + ?u)"
    by blast
  have f: "fdiv (fsum ds) (Finite (of_nat ?n)) = Finite a"
    using a npos unfolding x_def by (simp add: s)
  have mean: "Min (set ds) \<le> ?S / of_nat ?n" "?S / of_nat ?n \<le> Max (set ds)"
    using mean_between [OF ne] by simp_all
  have up: "a \<le> Max (set ds) * (1 + ?u) ^ Suc ?n"
  proof -
    have "x \<le> (?S * (1 + ?u) ^ ?n) / of_nat ?n"
      unfolding x_def using shi npos by (simp add: divide_right_mono)
    also have "\<dots> = (?S / of_nat ?n) * (1 + ?u) ^ ?n" by simp
    also have "\<dots> \<le> Max (set ds) * (1 + ?u) ^ ?n"
      using mean(2) u by (intro mult_right_mono) simp_all
    finally have "x * (1 + ?u) \<le> (Max (set ds) * (1 + ?u) ^ ?n) * (1 + ?u)"
      using u by (intro mult_right_mono) simp_all
    also have "\<dots> = Max (set ds) * (1 + ?u) ^ Suc ?n" by (simp add: mult_ac)
    finally show ?thesis using ahi by (rule order_trans [rotated])
  qed
  have down: "Min (set ds) * (1 - ?u) ^ Suc ?n \<le> a"
  proof -
    have "Min (set ds) * (1 - ?u) ^ ?n \<le> (?S / of_nat ?n) * (1 - ?u) ^ ?n"
      using mean(1) u by (intro mult_right_mono) simp_all
    also have "\<dots> = (?S * (1 - ?u) ^ ?n) / of_nat ?n" by simp
    also have "\<dots> \<le> x"
      unfolding x_def using slo npos by (simp add: divide_right_mono)
    finally have "(Min (set ds) * (1 - ?u) ^ ?n) * (1 - ?u) \<le> x * (1 - ?u)"
      using u by (intro mult_right_mono) simp_all
    moreover have "(Min (set ds) * (1 - ?u) ^ ?n) * (1 - ?u) = Min (set ds) * (1 - ?u) ^ Suc ?n"
      by (simp add: mult_ac)
    ultimately have "Min (set ds) * (1 - ?u) ^ Suc ?n \<le> x * (1 - ?u)" by (simp only:)
    then show ?thesis using alo by (rule order_trans)
  qed
  show ?thesis using f up down by blast
qed

text \<open>The exception of \<open>gather\<close> is that of the first failing task in the order of completion.\<close>

lemma gather_loop_first:
  "find (\<lambda>k. k < length aws \<and> isl (aws ! k)) sched = Some j \<Longrightarrow>
     gather_loop aws sched got = Inl (projl (aws ! j))"
proof (induction sched arbitrary: got)
  case Nil
  then show ?case by simp
next
  case (Cons k sched)
  show ?case
  proof (cases "k < length aws \<and> isl (aws ! k)")
    case True
    with Cons.prems have "j = k" by simp
    with True show ?thesis by (cases "aws ! k") simp_all
  next
    case False
    with Cons.prems have "find (\<lambda>k. k < length aws \<and> isl (aws ! k)) sched = Some j" by simp
    from Cons.IH [OF this] False show ?thesis by (cases "aws ! k") auto
  qed
qed

lemma gather_first:
  "find (\<lambda>k. k < length aws \<and> isl (aws ! k)) sched = Some j \<Longrightarrow>
     gather sched aws = Some (Inl (projl (aws ! j)))"
  by (simp add: gather_def gather_loop_first)

text \<open>Small evaluations shared by the examples.\<close>

lemma replicate_ten: "replicate 10 x = [x, x, x, x, x, x, x, x, x, x]"
  by (simp add: eval_nat_numeral)

lemma dbl_literals:
  "dbl (1 / 10) = 3602879701896397 / 36028797018963968"
  "dbl (1 / 5) = 3602879701896397 / 18014398509481984"
  "dbl (7 / 10) = 3152519739159347 / 4503599627370496"
  "dbl (1 / 2) = 1 / 2"
  by (simp_all add: dbl_def round64_literals)

lemma quantile_known_values: "quantile v (19 / 20) [1 / 10, 1 / 5, 3 / 10, 2 / 5, 1 / 2] = 1 / 2"
  by (cases v)
    (simp_all add: quantile_def nearest_idx_Legacy_95 nearest_idx_Current_95 del: nearest_idx.simps)

lemma steady_results:
  "gather_results example_env QUERIES =
     Some (Inr (replicate 10 \<lparr>duration = 1 / 8, size_r = 2, cost = JInt 3\<rparr>))"
  by code_simp

lemma steady_summary:
  "aggregate Current (replicate 10 \<lparr>duration = 1 / 8, size_r = 2, cost = JInt 3\<rparr>) =
     Inr \<lparr>min_d = 1 / 8, avg = Finite (1 / 8), p95 = 1 / 8, throughput = Finite 8\<rparr>"
  by (simp add: aggregate_def quantile_def fsum_def round64_eighths nearest_idx_Current_95
      replicate_ten del: nearest_idx.simps)

lemma steady_report:
  "report example_library (replicate 10 \<lparr>duration = 1 / 8, size_r = 2, cost = JInt 3\<rparr>) fresh_world =
     (Inr (),
      \<lparr>stdout =
         [\<lparr>columns = [''min'', ''avg'', ''p95'', ''throughput''],
           rows = [[CFloat (Finite (1 / 8)), CFloat (Finite (1 / 8)), CFloat (Finite (1 / 8)),
                    CFloat (Finite 8)]]\<rparr>],
       files =
         [''load_test_summary.csv'' \<mapsto>
            \<lparr>columns = [''duration'', ''size'', ''cost''],
             rows = replicate 10 [CFloat (Finite (1 / 8)), CInt 2, CObj (JInt 3)]\<rparr>]\<rparr>)"
  by (simp add: report_def example_library_def steady_summary fresh_world_def frame_table_def
      summary_table_def) (simp add: replicate_ten)

lemma flaky_results:
  "gather_results (example_env\<lparr>network := flaky_server\<rparr>) QUERIES = Some (Inl TransportError)"
  "gather_results (example_env\<lparr>network := flaky_server, completion := [0, 2, 1, 3]\<rparr>) QUERIES =
     Some (Inl JSONDecodeError)"
  by code_simp+

lemma staggered_results:
  "gather_results (example_env\<lparr>network := staggered_server, completion := [2, 0, 1]\<rparr>) (take 3 QUERIES) =
     Some (Inr [\<lparr>duration = 1 / 10, size_r = 0, cost = JNull\<rparr>,
                \<lparr>duration = 1 / 5, size_r = 1, cost = JNull\<rparr>,
                \<lparr>duration = 3 / 10, size_r = 2, cost = JNull\<rparr>])"
  "gather_results (example_env\<lparr>network := staggered_server, completion := [2, 0, 1], completion := [1, 2, 0]\<rparr>)
       (take 3 QUERIES) =
     Some (Inr [\<lparr>duration = 1 / 10, size_r = 0, cost = JNull\<rparr>,
                \<lparr>duration = 1 / 5, size_r = 1, cost = JNull\<rparr>,
                \<lparr>duration = 3 / 10, size_r = 2, cost = JNull\<rparr>])"
  by code_simp+

lemma staggered_dispatches:
  "list_all (\<lambda>i. i \<in> set [2, 0, 1] \<and> \<not> isl (send_query example_repr (staggered_server i) (take 3 QUERIES ! i))) [0..<3]"
  by code_simp

text \<open>The two exceptions of one dispatch that the network or the body causes.\<close>

lemma send_query_raises:
  "reply (post q) = NoReply \<Longrightarrow> send_query repr post q = Inl TransportError"
  "reply (post q) = Body None \<Longrightarrow> send_query repr post q = Inl JSONDecodeError"
  by (simp_all add: send_query_def Let_def)

lemma flaky_first:
  "find (\<lambda>k. k < length QUERIES \<and>
              isl (send_query (py_repr (example_env\<lparr>network := flaky_server\<rparr>))
                     (network (example_env\<lparr>network := flaky_server\<rparr>) k) (QUERIES ! k)))
     (completion (example_env\<lparr>network := flaky_server\<rparr>)) = Some 1"
  by code_simp

text \<open>Sums, means and throughputs of three doubles, rounded step by step.\<close>

lemma avg_three_tenths:
  "map_sum id avg (aggregate v (map timed [dbl (1 / 10), dbl (1 / 10), dbl (1 / 10)])) =
     Inr (Finite (7205759403792795 / 72057594037927936))"
  by (simp add: aggregate_def timed_def dbl_literals fsum_def round64_three_tenths)

lemma avg_three_sevens:
  "map_sum id avg (aggregate v (map timed [dbl (7 / 10), dbl (7 / 10), dbl (7 / 10)])) =
     Inr (Finite (6305039478318693 / 9007199254740992))"
  by (simp add: aggregate_def timed_def dbl_literals fsum_def round64_three_sevens)

lemma throughput_permuted:
  "map_sum id throughput (aggregate v (map timed [dbl (1 / 5), dbl (1 / 2), dbl (1 / 10)])) =
     Inr (Finite (8444249301319681 / 2251799813685248))"
  "map_sum id throughput (aggregate v (map timed [dbl (1 / 10), dbl (1 / 5), dbl (1 / 2)])) =
     Inr (Finite (15 / 4))"
  by (simp_all add: aggregate_def timed_def dbl_literals fsum_def round64_permuted)

subsection \<open>The 95th percentile\<close>

text \<open>
  C1, as the specification states it, fails on the script. For the durations
  \<open>[0.1, 0.2, 0.3, 0.4, 0.5]\<close> the summary's \<open>p95\<close> is \<open>0.5\<close>, the fifth sorted
  value, under both index rules of the library, while linear interpolation at the rank
  \<open>3.8\<close> gives \<open>0.48\<close>.
\<close>

theorem p95_known_values_counterexample:
  "map_sum id p95 (aggregate Legacy (map timed [1 / 10, 1 / 5, 3 / 10, 2 / 5, 1 / 2])) = Inr (1 / 2) \<and>
   map_sum id p95 (aggregate Current (map timed [1 / 10, 1 / 5, 3 / 10, 2 / 5, 1 / 2])) = Inr (1 / 2) \<and>
   p95_linear [1 / 10, 1 / 5, 3 / 10, 2 / 5, 1 / 2] = 12 / 25 \<and>
   (1 / 2 :: rat) \<noteq> 12 / 25"
proof -
  have "map_sum id p95 (aggregate v (map timed [1 / 10, 1 / 5, 3 / 10, 2 / 5, 1 / 2])) = Inr (1 / 2)" for v
    by (simp add: aggregate_nonempty timed_def quantile_known_values)
  moreover have "p95_linear [1 / 10, 1 / 5, 3 / 10, 2 / 5, 1 / 2] = 12 / 25"
    by (simp add: p95_linear_def Let_def floor_rat_numeral ceiling_rat_numeral)
  ultimately show ?thesis by simp
qed

text \<open>
  C1, amended. For every non-empty list of measurements the summary exists and its
  \<open>p95\<close> is the element of the sorted durations at the index that the library's
  \<open>nearest\<close> rule picks for \<open>0.95\<close>, an index inside the list: \<open>p95\<close> is one of
  the recorded durations and nothing is interpolated. When the rank
  \<open>0.95 * (n - 1)\<close> is an integer index (\<open>n - 1 = 20 * j\<close>, the rank being
  \<open>19 * j\<close>), \<open>p95\<close> is the element at that index, which is also what linear
  interpolation gives. For the durations \<open>[0.1, 0.2, 0.3, 0.4, 0.5]\<close> it is \<open>0.5\<close>.
\<close>

theorem p95_is_nearest_rank_element:
  "(df \<noteq> [] \<longrightarrow>
      (\<exists>s. aggregate v df = Inr s \<and>
           nearest_idx v (19 / 20) (length df) < length df \<and>
           p95 s = sort (map duration df) ! nearest_idx v (19 / 20) (length df) \<and>
           p95 s \<in> duration ` set df \<and>
           (\<forall>j. length df - 1 = 20 * j \<longrightarrow>
                p95 s = sort (map duration df) ! (19 * j) \<and>
                p95 s = p95_linear (map duration df)))) \<and>
   (\<exists>s. aggregate v (map timed [1 / 10, 1 / 5, 3 / 10, 2 / 5, 1 / 2]) = Inr s \<and> p95 s = 1 / 2)"
proof (intro conjI impI)
  assume ne: "df \<noteq> []"
  let ?ds = "map duration df"
  let ?s = "\<lparr>min_d = Min (set ?ds), avg = fdiv (fsum ?ds) (Finite (of_nat (length df))),
             p95 = quantile v (19 / 20) ?ds,
             throughput = fdiv (Finite (of_nat (length df))) (fsum ?ds)\<rparr>"
  have agg: "aggregate v df = Inr ?s" using ne by (rule aggregate_nonempty)
  have idx: "nearest_idx v (19 / 20) (length df) < length df"
    using ne by (simp add: nearest_idx_less)
  have p: "p95 ?s = sort ?ds ! nearest_idx v (19 / 20) (length df)"
    by (simp add: quantile_def)
  have mem: "p95 ?s \<in> duration ` set df"
    using quantile_mem [of ?ds v] ne by simp
  have lin: "\<forall>j. length df - 1 = 20 * j \<longrightarrow>
      p95 ?s = sort ?ds ! (19 * j) \<and> p95 ?s = p95_linear ?ds"
  proof (intro allI impI)
    fix j assume j: "length df - 1 = 20 * j"
    then have "nearest_idx v (19 / 20) (length df) = 19 * j"
      by (rule nearest_idx_integral_rank)
    moreover have "p95_linear ?ds = sort ?ds ! (19 * j)"
      using j by (simp add: p95_linear_integral_rank)
    ultimately show "p95 ?s = sort ?ds ! (19 * j) \<and> p95 ?s = p95_linear ?ds"
      using p by simp
  qed
  show "\<exists>s. aggregate v df = Inr s \<and>
           nearest_idx v (19 / 20) (length df) < length df \<and>
           p95 s = sort (map duration df) ! nearest_idx v (19 / 20) (length df) \<and>
           p95 s \<in> duration ` set df \<and>
           (\<forall>j. length df - 1 = 20 * j \<longrightarrow>
                p95 s = sort (map duration df) ! (19 * j) \<and>
                p95 s = p95_linear (map duration df))"
    using agg idx p mem lin by blast
next
  show "\<exists>s. aggregate v (map timed [1 / 10, 1 / 5, 3 / 10, 2 / 5, 1 / 2]) = Inr s \<and> p95 s = 1 / 2"
    by (simp add: aggregate_nonempty timed_def quantile_known_values)
qed

text \<open>
  A witness of C1 with 21 durations, where the rank is the integer 19 and \<open>p95\<close> is
  the twentieth sorted value.
\<close>

theorem p95_is_nearest_rank_element_witness:
  "map timed [21, 20, 19, 18, 17, 16, 15, 14, 13, 12, 11, 10, 9, 8, 7, 6, 5, 4, 3, 2, 1] \<noteq> [] \<and>
   length (map timed [21, 20, 19, 18, 17, 16, 15, 14, 13, 12, 11, 10, 9, 8, 7, 6, 5, 4, 3, 2, 1]) - 1 = 20 * 1 \<and>
   (\<exists>s. aggregate Current
          (map timed [21, 20, 19, 18, 17, 16, 15, 14, 13, 12, 11, 10, 9, 8, 7, 6, 5, 4, 3, 2, 1]) = Inr s \<and>
        p95 s = 20 \<and>
        p95 s = p95_linear
          (map duration (map timed [21, 20, 19, 18, 17, 16, 15, 14, 13, 12, 11, 10, 9, 8, 7, 6, 5, 4, 3, 2, 1])))"
proof -
  let ?df = "map timed [21, 20, 19, 18, 17, 16, 15, 14, 13, 12, 11, 10, 9, 8, 7, 6, 5, 4, 3, 2, 1]"
  have ne: "?df \<noteq> []" by simp
  have len: "length ?df - 1 = 20 * 1" by simp
  from p95_is_nearest_rank_element [of ?df Current] ne
  obtain s where s: "aggregate Current ?df = Inr s"
    and lin: "\<forall>j. length ?df - 1 = 20 * j \<longrightarrow>
        p95 s = sort (map duration ?df) ! (19 * j) \<and> p95 s = p95_linear (map duration ?df)"
    by blast
  from lin len have at: "p95 s = sort (map duration ?df) ! (19 * 1)"
    and eq: "p95 s = p95_linear (map duration ?df)" by blast+
  have "sort (map duration ?df) ! (19 * 1) = 20" by (simp add: timed_def)
  with at have "p95 s = 20" by simp
  with ne len s eq show ?thesis by blast
qed

subsection \<open>Bounds of the summary\<close>

text \<open>
  C5, as the specification states it, fails on the script for the mean. Three
  durations that are all the double \<open>0.1\<close> have the mean \<open>0.10000000000000002\<close>,
  one unit in the last place above their maximum: the sum of the three rounds up.
  Three durations that are all the double \<open>0.7\<close> have a mean one unit in the last
  place below their minimum.
\<close>

theorem mean_outside_min_max_counterexample:
  "map_sum id avg (aggregate Current (map timed [dbl (1 / 10), dbl (1 / 10), dbl (1 / 10)])) =
     Inr (Finite (7205759403792795 / 72057594037927936)) \<and>
   Max (duration ` set (map timed [dbl (1 / 10), dbl (1 / 10), dbl (1 / 10)])) =
     7205759403792794 / 72057594037927936 \<and>
   (7205759403792794 / 72057594037927936 :: rat) < 7205759403792795 / 72057594037927936 \<and>
   map_sum id avg (aggregate Current (map timed [dbl (7 / 10), dbl (7 / 10), dbl (7 / 10)])) =
     Inr (Finite (6305039478318693 / 9007199254740992)) \<and>
   Min (duration ` set (map timed [dbl (7 / 10), dbl (7 / 10), dbl (7 / 10)])) =
     6305039478318694 / 9007199254740992 \<and>
   (6305039478318693 / 9007199254740992 :: rat) < 6305039478318694 / 9007199254740992"
  using avg_three_tenths [of Current] avg_three_sevens [of Current]
  by (simp add: timed_def dbl_literals)

text \<open>
  C5, amended. For every non-empty list of measurements the summary exists, its
  \<open>min\<close> is the least duration, and \<open>p95\<close> lies between the least and the
  greatest duration. The mean is the rounded quotient of the rounded sum and the
  number of rows; for fewer than 128 durations, each between \<open>2^(-1000)\<close> and
  \<open>2^800\<close>, it is a finite double and leaves the interval from the least to the
  greatest duration by at most the factor \<open>(1 \<plusminus> 2^(-53))^(n + 1)\<close>, \<open>n\<close> being
  the number of rows.
\<close>

theorem summary_bounds_up_to_rounding:
  "df \<noteq> [] \<Longrightarrow>
     \<exists>s. aggregate v df = Inr s \<and>
         min_d s = Min (duration ` set df) \<and>
         min_d s \<le> p95 s \<and> p95 s \<le> Max (duration ` set df) \<and>
         avg s = fdiv (fsum (map duration df)) (Finite (of_nat (length df))) \<and>
         ((\<forall>m\<in>set df. 2 powi (- 1000) \<le> duration m \<and> duration m \<le> 2 ^ 800) \<and>
          length df < 128 \<longrightarrow>
            (\<exists>a. avg s = Finite a \<and>
                 min_d s * (1 - unit_roundoff) ^ Suc (length df) \<le> a \<and>
                 a \<le> Max (duration ` set df) * (1 + unit_roundoff) ^ Suc (length df)))"
proof -
  assume ne: "df \<noteq> []"
  let ?ds = "map duration df"
  have ds: "?ds \<noteq> []" using ne by simp
  have mem: "quantile v (19 / 20) ?ds \<in> set ?ds" using ds by (rule quantile_mem)
  have lo: "Min (set ?ds) \<le> quantile v (19 / 20) ?ds" using mem by (intro Min_le) simp_all
  have hi: "quantile v (19 / 20) ?ds \<le> Max (set ?ds)" using mem by (intro Max_ge) simp_all
  have rel: "\<exists>a. fdiv (fsum ?ds) (Finite (of_nat (length df))) = Finite a \<and>
      Min (set ?ds) * (1 - unit_roundoff) ^ Suc (length df) \<le> a \<and>
      a \<le> Max (set ?ds) * (1 + unit_roundoff) ^ Suc (length df)"
    if "(\<forall>m\<in>set df. 2 powi (- 1000) \<le> duration m \<and> duration m \<le> 2 ^ 800) \<and> length df < 128"
  proof -
    from that have "\<forall>d\<in>set ?ds. 2 powi (- 1000) \<le> d \<and> d \<le> 2 ^ 800" and "length ?ds < 128"
      by simp_all
    from mean_rel [OF this ds] show ?thesis by simp
  qed
  show ?thesis
    unfolding aggregate_nonempty [OF ne] using lo hi rel by simp
qed

text \<open>
  A witness of C5 on the three durations \<open>0.1\<close> of the counterexample: the mean is
  above the maximum and inside the widened interval.
\<close>

theorem summary_bounds_up_to_rounding_witness:
  "map timed [dbl (1 / 10), dbl (1 / 10), dbl (1 / 10)] \<noteq> [] \<and>
   list_all (\<lambda>m. 2 powi (- 1000) \<le> duration m \<and> duration m \<le> 2 ^ 800)
     (map timed [dbl (1 / 10), dbl (1 / 10), dbl (1 / 10)]) \<and>
   length (map timed [dbl (1 / 10), dbl (1 / 10), dbl (1 / 10)]) < 128 \<and>
   (\<exists>s. aggregate Legacy (map timed [dbl (1 / 10), dbl (1 / 10), dbl (1 / 10)]) = Inr s \<and>
        min_d s = dbl (1 / 10) \<and> p95 s = dbl (1 / 10) \<and>
        avg s = Finite (7205759403792795 / 72057594037927936) \<and>
        dbl (1 / 10) * (1 - unit_roundoff) ^ 4 \<le> 7205759403792795 / 72057594037927936 \<and>
        7205759403792795 / 72057594037927936 \<le> dbl (1 / 10) * (1 + unit_roundoff) ^ 4)"
proof -
  let ?df = "map timed [dbl (1 / 10), dbl (1 / 10), dbl (1 / 10)]"
  have ne: "?df \<noteq> []" by simp
  have r: "list_all (\<lambda>m. 2 powi (- 1000) \<le> duration m \<and> duration m \<le> 2 ^ 800) ?df"
    by (simp add: timed_def dbl_literals)
  then have r': "\<forall>m\<in>set ?df. 2 powi (- 1000) \<le> duration m \<and> duration m \<le> 2 ^ 800"
    by (simp only: list_all_iff)
  have l: "length ?df < 128" by simp
  have mm: "Min (duration ` set ?df) = dbl (1 / 10)" "Max (duration ` set ?df) = dbl (1 / 10)"
    by (simp_all add: timed_def)
  from summary_bounds_up_to_rounding [OF ne, of Legacy] r' l
  obtain s a where s: "aggregate Legacy ?df = Inr s" and m: "min_d s = Min (duration ` set ?df)"
    and p: "min_d s \<le> p95 s" "p95 s \<le> Max (duration ` set ?df)"
    and a: "avg s = Finite a"
    and b: "min_d s * (1 - unit_roundoff) ^ Suc (length ?df) \<le> a"
      "a \<le> Max (duration ` set ?df) * (1 + unit_roundoff) ^ Suc (length ?df)"
    by blast
  have "a = 7205759403792795 / 72057594037927936"
    using avg_three_tenths [of Legacy] s a by simp
  moreover have "p95 s = dbl (1 / 10)" using p m mm by simp
  moreover have "Suc (length ?df) = 4" by simp
  ultimately show ?thesis using ne r l s m a b mm by (simp only:) simp
qed

subsection \<open>Dependence on the order\<close>

text \<open>
  C6, as the specification states it, fails on the script. The doubles \<open>0.2\<close>,
  \<open>0.5\<close>, \<open>0.1\<close> in this order have the throughput \<open>3.7500000000000004\<close>, and
  the same three in the order \<open>0.1\<close>, \<open>0.2\<close>, \<open>0.5\<close> have the throughput
  \<open>3.75\<close>: the sum of the column rounds after every addition, and differently in the
  two orders.
\<close>

theorem permutation_changes_throughput_counterexample:
  "mset (map timed [dbl (1 / 5), dbl (1 / 2), dbl (1 / 10)]) =
     mset (map timed [dbl (1 / 10), dbl (1 / 5), dbl (1 / 2)]) \<and>
   map_sum id throughput (aggregate Current (map timed [dbl (1 / 5), dbl (1 / 2), dbl (1 / 10)])) =
     Inr (Finite (8444249301319681 / 2251799813685248)) \<and>
   map_sum id throughput (aggregate Current (map timed [dbl (1 / 10), dbl (1 / 5), dbl (1 / 2)])) =
     Inr (Finite (15 / 4)) \<and>
   (8444249301319681 / 2251799813685248 :: rat) \<noteq> 15 / 4"
  using throughput_permuted [of Current] by simp

text \<open>
  C6, amended. Two lists with the same multiset of measurements have the same
  multiset of durations. Two lists with the same multiset of durations have the same
  \<open>min\<close> and the same \<open>p95\<close>. Their mean and throughput are computed from the
  floating-point sum of the column in row order: when the two sums are equal the two
  summaries are equal, and in any case, for fewer than 128 durations, each between
  \<open>2^(-1000)\<close> and \<open>2^800\<close>, both sums are finite and within the factor
  \<open>(1 \<plusminus> 2^(-53))^n\<close> of the exact sum of the durations.
\<close>

theorem summary_under_permutation:
  "(mset df = mset df' \<longrightarrow> mset (map duration df) = mset (map duration df')) \<and>
   (mset (map duration df) = mset (map duration df') \<longrightarrow>
      map_sum id min_d (aggregate v df) = map_sum id min_d (aggregate v df') \<and>
      map_sum id p95 (aggregate v df) = map_sum id p95 (aggregate v df') \<and>
      (fsum (map duration df) = fsum (map duration df') \<longrightarrow> aggregate v df = aggregate v df') \<and>
      ((\<forall>m\<in>set df. 2 powi (- 1000) \<le> duration m \<and> duration m \<le> 2 ^ 800) \<and> length df < 128 \<longrightarrow>
         (\<exists>t t'. fsum (map duration df) = Finite t \<and> fsum (map duration df') = Finite t' \<and>
            sum_list (map duration df) * (1 - unit_roundoff) ^ length df \<le> t \<and>
            t \<le> sum_list (map duration df) * (1 + unit_roundoff) ^ length df \<and>
            sum_list (map duration df) * (1 - unit_roundoff) ^ length df \<le> t' \<and>
            t' \<le> sum_list (map duration df) * (1 + unit_roundoff) ^ length df)))"
proof (intro conjI impI)
  assume "mset df = mset df'"
  then show "mset (map duration df) = mset (map duration df')" by (metis mset_map)
next
  let ?ds = "map duration df" and ?ds' = "map duration df'"
  assume m: "mset ?ds = mset ?ds'"
  have len: "length df = length df'" using mset_eq_length [OF m] by simp
  have st: "set ?ds = set ?ds'" using m by (rule mset_eq_setD)
  have so: "sort ?ds = sort ?ds'" using m by (metis properties_for_sort sorted_sort mset_sort)
  have su: "sum_list ?ds = sum_list ?ds'" using m by (metis sum_mset_sum_list)
  have e: "df = [] \<longleftrightarrow> df' = []" using len by auto
  show "map_sum id min_d (aggregate v df) = map_sum id min_d (aggregate v df')"
  proof (cases "df = []")
    case True
    with e show ?thesis by simp
  next
    case False
    with e have "df' \<noteq> []" by simp
    with False show ?thesis by (simp add: aggregate_nonempty st del: set_map)
  qed
  show "map_sum id p95 (aggregate v df) = map_sum id p95 (aggregate v df')"
  proof (cases "df = []")
    case True
    with e show ?thesis by simp
  next
    case False
    with e have "df' \<noteq> []" by simp
    with False show ?thesis by (simp add: aggregate_nonempty quantile_def so len)
  qed
  show "aggregate v df = aggregate v df'" if "fsum ?ds = fsum ?ds'"
  proof (cases "df = []")
    case True
    with e show ?thesis by simp
  next
    case False
    with e have "df' \<noteq> []" by simp
    with False that show ?thesis by (simp add: aggregate_nonempty quantile_def so len st del: set_map)
  qed
  show "\<exists>t t'. fsum ?ds = Finite t \<and> fsum ?ds' = Finite t' \<and>
            sum_list ?ds * (1 - unit_roundoff) ^ length df \<le> t \<and>
            t \<le> sum_list ?ds * (1 + unit_roundoff) ^ length df \<and>
            sum_list ?ds * (1 - unit_roundoff) ^ length df \<le> t' \<and>
            t' \<le> sum_list ?ds * (1 + unit_roundoff) ^ length df"
    if h: "(\<forall>m\<in>set df. 2 powi (- 1000) \<le> duration m \<and> duration m \<le> 2 ^ 800) \<and> length df < 128"
  proof -
    from h have r: "\<forall>d\<in>set ?ds. 2 powi (- 1000) \<le> d \<and> d \<le> 2 ^ 800" and l: "length ?ds < 128"
      by simp_all
    have r': "\<forall>d\<in>set ?ds'. 2 powi (- 1000) \<le> d \<and> d \<le> 2 ^ 800"
      using r unfolding st .
    from l len have l': "length ?ds' < 128" by simp
    from fsum_rel [OF r l] fsum_rel [OF r' l'] show ?thesis
      using su len by auto
  qed
qed

text \<open>
  A witness of C6: the two orders of the counterexample for the bounds of the sums, and
  the durations 0.25 and 0.5, whose sum no order changes, for the equal summaries.
\<close>

theorem summary_under_permutation_witness:
  "mset (map timed [dbl (1 / 5), dbl (1 / 2), dbl (1 / 10)]) =
     mset (map timed [dbl (1 / 10), dbl (1 / 5), dbl (1 / 2)]) \<and>
   list_all (\<lambda>m. 2 powi (- 1000) \<le> duration m \<and> duration m \<le> 2 ^ 800)
     (map timed [dbl (1 / 5), dbl (1 / 2), dbl (1 / 10)]) \<and>
   length (map timed [dbl (1 / 5), dbl (1 / 2), dbl (1 / 10)]) < 128 \<and>
   map_sum id min_d (aggregate Current (map timed [dbl (1 / 5), dbl (1 / 2), dbl (1 / 10)])) =
     map_sum id min_d (aggregate Current (map timed [dbl (1 / 10), dbl (1 / 5), dbl (1 / 2)])) \<and>
   map_sum id p95 (aggregate Current (map timed [dbl (1 / 5), dbl (1 / 2), dbl (1 / 10)])) =
     map_sum id p95 (aggregate Current (map timed [dbl (1 / 10), dbl (1 / 5), dbl (1 / 2)])) \<and>
   (\<exists>t t'. fsum (map duration (map timed [dbl (1 / 5), dbl (1 / 2), dbl (1 / 10)])) = Finite t \<and>
      fsum (map duration (map timed [dbl (1 / 10), dbl (1 / 5), dbl (1 / 2)])) = Finite t' \<and>
      t \<le> sum_list (map duration (map timed [dbl (1 / 5), dbl (1 / 2), dbl (1 / 10)])) *
            (1 + unit_roundoff) ^ 3 \<and>
      sum_list (map duration (map timed [dbl (1 / 5), dbl (1 / 2), dbl (1 / 10)])) *
            (1 - unit_roundoff) ^ 3 \<le> t') \<and>
   mset (map timed [1 / 4, 1 / 2]) = mset (map timed [1 / 2, 1 / 4]) \<and>
   fsum (map duration (map timed [1 / 4, 1 / 2])) = fsum (map duration (map timed [1 / 2, 1 / 4])) \<and>
   aggregate Current (map timed [1 / 4, 1 / 2]) = aggregate Current (map timed [1 / 2, 1 / 4])"
proof -
  let ?A = "map timed [dbl (1 / 5), dbl (1 / 2), dbl (1 / 10)]"
  let ?B = "map timed [dbl (1 / 10), dbl (1 / 5), dbl (1 / 2)]"
  let ?E = "map timed [1 / 4, 1 / 2]"
  let ?F = "map timed [1 / 2, 1 / 4]"
  have ab: "mset ?A = mset ?B" by (simp add: timed_def)
  have r: "list_all (\<lambda>m. 2 powi (- 1000) \<le> duration m \<and> duration m \<le> 2 ^ 800) ?A"
    by (simp add: timed_def dbl_literals)
  then have r': "\<forall>m\<in>set ?A. 2 powi (- 1000) \<le> duration m \<and> duration m \<le> 2 ^ 800"
    by (simp only: list_all_iff)
  have l: "length ?A < 128" by simp
  have l3: "length ?A = 3" by simp
  have ef: "mset ?E = mset ?F" by (simp add: timed_def)
  have fs: "fsum (map duration ?E) = fsum (map duration ?F)"
    by (simp add: timed_def fsum_def round64_eighths)
  note t1 = summary_under_permutation [of ?A ?B Current]
  note t2 = summary_under_permutation [of ?E ?F Current]
  from t1 ab have dab: "mset (map duration ?A) = mset (map duration ?B)" by blast
  from t2 ef have def: "mset (map duration ?E) = mset (map duration ?F)" by blast
  from t1 dab have mp: "map_sum id min_d (aggregate Current ?A) = map_sum id min_d (aggregate Current ?B)"
    "map_sum id p95 (aggregate Current ?A) = map_sum id p95 (aggregate Current ?B)"
    by blast+
  from t1 dab r' l obtain t t' where tt: "fsum (map duration ?A) = Finite t"
    "fsum (map duration ?B) = Finite t'"
    "t \<le> sum_list (map duration ?A) * (1 + unit_roundoff) ^ length ?A"
    "sum_list (map duration ?A) * (1 - unit_roundoff) ^ length ?A \<le> t'"
    by blast
  from t2 def fs have eq: "aggregate Current ?E = aggregate Current ?F" by blast
  from tt have ex: "\<exists>t t'. fsum (map duration ?A) = Finite t \<and>
      fsum (map duration ?B) = Finite t' \<and>
      t \<le> sum_list (map duration ?A) * (1 + unit_roundoff) ^ 3 \<and>
      sum_list (map duration ?A) * (1 - unit_roundoff) ^ 3 \<le> t'"
    unfolding l3 by blast
  show ?thesis
    by (intro conjI) (rule ab r l mp ex ef fs eq)+
qed

subsection \<open>One measurement\<close>

text \<open>
  C7. For every response whose body parses to a JSON object, \<open>send_query\<close> returns a
  measurement. Its size is 0 when the object has no \<open>output\<close> field, and otherwise
  the length of \<open>str\<close> of that field: the number of characters of a string, the
  length of the \<open>repr\<close> of any other value. Its cost is the \<open>cost\<close> field, and
  \<open>None\<close> (JSON's null) when the object has none. Its duration is the difference of
  the two clock readings.
\<close>

theorem send_query_size_and_cost:
  assumes "reply (post q) = Body (Some (JObj data))"
  shows "\<exists>m. send_query repr post q = Inr m \<and>
           size_r m =
             (case map_of data ''output'' of
                None \<Rightarrow> 0
              | Some (JStr s) \<Rightarrow> length s
              | Some out \<Rightarrow> length (repr out)) \<and>
           cost m = (case map_of data ''cost'' of None \<Rightarrow> JNull | Some c \<Rightarrow> c) \<and>
           duration m = finished (post q) - started (post q)"
proof -
  have "length (py_str repr out) = (case out of JStr s \<Rightarrow> length s | _ \<Rightarrow> length (repr out))" for out
    by (cases out) simp_all
  then show ?thesis
    using assms by (simp add: send_query_def Let_def dict_get_def split: option.splits json.splits)
qed

text \<open>
  A witness of C7: a response with both fields, and one with neither.
\<close>

theorem send_query_size_and_cost_witness:
  "reply (steady_server 0 (hd QUERIES)) =
     Body (Some (JObj [(''output'', JStr [111, 107]), (''cost'', JInt 3)])) \<and>
   send_query example_repr (steady_server 0) (hd QUERIES) =
     Inr \<lparr>duration = 1 / 8, size_r = 2, cost = JInt 3\<rparr> \<and>
   reply (\<lparr>started = 0, finished = 1 / 4, reply = Body (Some (JObj [(''rows'', JInt 5)]))\<rparr>) =
     Body (Some (JObj [(''rows'', JInt 5)])) \<and>
   send_query example_repr (\<lambda>q. \<lparr>started = 0, finished = 1 / 4, reply = Body (Some (JObj [(''rows'', JInt 5)]))\<rparr>)
       (hd QUERIES) =
     Inr \<lparr>duration = 1 / 4, size_r = 0, cost = JNull\<rparr>"
proof -
  let ?x = "\<lparr>started = 0, finished = 1 / 4, reply = Body (Some (JObj [(''rows'', JInt 5)]))\<rparr>"
  let ?d = "[(''output'', JStr [111, 107]), (''cost'', JInt 3)]"
  have a: "reply (steady_server 0 (hd QUERIES)) = Body (Some (JObj ?d))"
    by (simp add: steady_server_def)
  have b: "reply ((\<lambda>q. ?x) (hd QUERIES)) = Body (Some (JObj [(''rows'', JInt 5)]))" by simp
  from send_query_size_and_cost
    [where post = "steady_server 0" and q = "hd QUERIES" and repr = example_repr, OF a]
  obtain m where m: "send_query example_repr (steady_server 0) (hd QUERIES) = Inr m"
    "size_r m = (case map_of ?d ''output'' of None \<Rightarrow> 0 | Some (JStr s) \<Rightarrow> length s
                 | Some out \<Rightarrow> length (example_repr out))"
    "cost m = (case map_of ?d ''cost'' of None \<Rightarrow> JNull | Some c \<Rightarrow> c)"
    "duration m = finished (steady_server 0 (hd QUERIES)) - started (steady_server 0 (hd QUERIES))"
    by blast
  have "m = \<lparr>duration = 1 / 8, size_r = 2, cost = JInt 3\<rparr>"
    using m(2-4) by (cases m) (simp add: steady_server_def)
  with m(1) have first: "send_query example_repr (steady_server 0) (hd QUERIES) =
     Inr \<lparr>duration = 1 / 8, size_r = 2, cost = JInt 3\<rparr>" by simp
  from send_query_size_and_cost
    [where post = "\<lambda>q. ?x" and q = "hd QUERIES" and repr = example_repr, OF b]
  obtain m' where m': "send_query example_repr (\<lambda>q. ?x) (hd QUERIES) = Inr m'"
    "size_r m' = (case map_of [(''rows'', JInt 5)] ''output'' of None \<Rightarrow> 0 | Some (JStr s) \<Rightarrow> length s
                 | Some out \<Rightarrow> length (example_repr out))"
    "cost m' = (case map_of [(''rows'', JInt 5)] ''cost'' of None \<Rightarrow> JNull | Some c \<Rightarrow> c)"
    "duration m' = finished ((\<lambda>q. ?x) (hd QUERIES)) - started ((\<lambda>q. ?x) (hd QUERIES))"
    by blast
  have "m' = \<lparr>duration = 1 / 4, size_r = 0, cost = JNull\<rparr>"
    using m'(2-4) by (cases m') simp
  with m'(1) have "send_query example_repr (\<lambda>q. ?x) (hd QUERIES) =
     Inr \<lparr>duration = 1 / 4, size_r = 0, cost = JNull\<rparr>" by simp
  with first a show ?thesis by simp
qed

subsection \<open>The results that reach the summary\<close>

text \<open>
  C8. Every run of \<open>main\<close> that returns either got an exception from \<open>gather\<close>,
  and then ends with it without any summary and with the world unchanged, or got from
  \<open>gather\<close> a list of exactly as many measurements as there are queries, after every
  dispatch had completed, and summarises that list: a partial list never reaches the
  summary.
\<close>

theorem aggregation_takes_complete_batch:
  assumes "main env queries w = Some out"
  shows "(\<exists>e. gather_results env queries = Some (Inl e) \<and> out = (Inl e, w)) \<or>
         (\<exists>results. gather_results env queries = Some (Inr results) \<and>
            out = report (polars env) results w \<and>
            length results = length queries \<and>
            (\<forall>i<length queries. i \<in> set (completion env)))"
proof (cases "gather_results env queries")
  case None
  with assms show ?thesis by (simp add: main_def)
next
  case (Some r)
  show ?thesis
  proof (cases r)
    case (Inl e)
    with Some assms show ?thesis by (simp add: main_def)
  next
    case (Inr results)
    let ?aws = "map (\<lambda>(i, q). send_query (py_repr env) (network env i) q) (enumerate 0 queries)"
    have g: "gather (completion env) ?aws = Some (Inr results)"
      using Some Inr by (simp add: gather_results_def)
    have "length results = length queries" using gather_returned(1) [OF g] by simp
    moreover have "\<forall>i<length queries. i \<in> set (completion env)"
      using gather_returned(2) [OF g] by simp
    moreover have "out = report (polars env) results w"
      using Some Inr assms by (simp add: main_def)
    ultimately show ?thesis using Some Inr by blast
  qed
qed

text \<open>A witness of C8: the ten queries of the script against the steady server.\<close>

theorem aggregation_takes_complete_batch_witness:
  "main example_env QUERIES fresh_world \<noteq> None \<and>
   (\<exists>results. gather_results example_env QUERIES = Some (Inr results) \<and>
      main example_env QUERIES fresh_world = Some (report example_library results fresh_world) \<and>
      length results = 10 \<and> list_all (\<lambda>i. i \<in> set (completion example_env)) [0..<10])"
proof -
  obtain out where out: "main example_env QUERIES fresh_world = Some out"
    by (simp add: main_def steady_results)
  from aggregation_takes_complete_batch [OF out]
  obtain results where r: "gather_results example_env QUERIES = Some (Inr results)"
    and o: "out = report (polars example_env) results fresh_world"
    and l: "length results = length QUERIES"
    by (auto simp: steady_results)
  have "length results = 10" using l by (simp add: QUERIES_def)
  moreover have "list_all (\<lambda>i. i \<in> set (completion example_env)) [0..<10]"
    by (simp add: example_env_def upt_rec)
  moreover have "main example_env QUERIES fresh_world = Some (report example_library results fresh_world)"
    using out o by (simp add: example_env_def)
  ultimately show ?thesis using r out by blast
qed

text \<open>
  C10. When \<open>gather\<close> returns, the list it hands to \<open>main\<close> has one measurement
  per query and the \<open>i\<close>-th measurement is what the dispatch of the \<open>i\<close>-th query
  returned; any other order of completion under which \<open>gather\<close> returns gives the
  same list. And \<open>gather\<close> does return a list whenever every dispatch completes and
  returns a measurement, whatever the order of completion.
\<close>

theorem results_follow_query_order:
  "(gather_results env queries = Some (Inr results) \<longrightarrow>
      length results = length queries \<and>
      (\<forall>i<length queries.
         send_query (py_repr env) (network env i) (queries ! i) = Inr (results ! i)) \<and>
      (\<forall>sched' results'.
         gather_results (env\<lparr>completion := sched'\<rparr>) queries = Some (Inr results') \<longrightarrow>
         results' = results)) \<and>
   ((\<forall>i<length queries.
       i \<in> set (completion env) \<and>
       (\<exists>m. send_query (py_repr env) (network env i) (queries ! i) = Inr m)) \<longrightarrow>
      (\<exists>rs. gather_results env queries = Some (Inr rs)))"
proof (intro conjI impI)
  let ?aws = "map (\<lambda>(i, q). send_query (py_repr env) (network env i) q) (enumerate 0 queries)"
  assume "gather_results env queries = Some (Inr results)"
  then have g: "gather (completion env) ?aws = Some (Inr results)"
    by (simp add: gather_results_def)
  show len: "length results = length queries" using gather_returned(1) [OF g] by simp
  show "\<forall>i<length queries.
      send_query (py_repr env) (network env i) (queries ! i) = Inr (results ! i)"
    using gather_returned(2) [OF g] by (simp add: nth_enumerate_eq)
  show "\<forall>sched' results'.
      gather_results (env\<lparr>completion := sched'\<rparr>) queries = Some (Inr results') \<longrightarrow>
      results' = results"
  proof (intro allI impI)
    fix sched' results'
    assume "gather_results (env\<lparr>completion := sched'\<rparr>) queries = Some (Inr results')"
    then have g': "gather sched' ?aws = Some (Inr results')"
      by (simp add: gather_results_def)
    have "length results' = length queries" using gather_returned(1) [OF g'] by simp
    moreover have "results' ! i = results ! i" if "i < length queries" for i
      using gather_returned(2) [OF g', of i] gather_returned(2) [OF g, of i] that by simp
    ultimately show "results' = results" using len by (intro nth_equalityI) simp_all
  qed
next
  let ?aws = "map (\<lambda>(i, q). send_query (py_repr env) (network env i) q) (enumerate 0 queries)"
  assume all: "\<forall>i<length queries.
       i \<in> set (completion env) \<and>
       (\<exists>m. send_query (py_repr env) (network env i) (queries ! i) = Inr m)"
  have "gather (completion env) ?aws = Some (Inr (map projr ?aws))"
  proof (rule gather_all_returned)
    fix i assume "i < length ?aws"
    then have i: "i < length queries" by simp
    with all show "\<exists>r. ?aws ! i = Inr r" by (simp add: nth_enumerate_eq)
    from i all show "i \<in> set (completion env)" by simp
  qed
  then show "\<exists>rs. gather_results env queries = Some (Inr rs)"
    by (simp add: gather_results_def)
qed

text \<open>
  A witness of C10: three dispatches that complete in the order 2, 0, 1, and in the
  order 1, 2, 0.
\<close>

theorem results_follow_query_order_witness:
  "list_all (\<lambda>i. i \<in> set [2, 0, 1] \<and>
       \<not> isl (send_query example_repr (staggered_server i) (take 3 QUERIES ! i))) [0..<3] \<and>
   gather_results (example_env\<lparr>network := staggered_server, completion := [2, 0, 1]\<rparr>) (take 3 QUERIES) =
     Some (Inr [\<lparr>duration = 1 / 10, size_r = 0, cost = JNull\<rparr>,
                \<lparr>duration = 1 / 5, size_r = 1, cost = JNull\<rparr>,
                \<lparr>duration = 3 / 10, size_r = 2, cost = JNull\<rparr>]) \<and>
   send_query example_repr (staggered_server 1) (take 3 QUERIES ! 1) =
     Inr \<lparr>duration = 1 / 5, size_r = 1, cost = JNull\<rparr> \<and>
   gather_results (example_env\<lparr>network := staggered_server, completion := [1, 2, 0]\<rparr>) (take 3 QUERIES) =
     Some (Inr [\<lparr>duration = 1 / 10, size_r = 0, cost = JNull\<rparr>,
                \<lparr>duration = 1 / 5, size_r = 1, cost = JNull\<rparr>,
                \<lparr>duration = 3 / 10, size_r = 2, cost = JNull\<rparr>])"
proof -
  let ?env = "example_env\<lparr>network := staggered_server, completion := [2, 0, 1]\<rparr>"
  let ?qs = "take 3 QUERIES"
  let ?rs = "[\<lparr>duration = 1 / 10, size_r = 0, cost = JNull\<rparr>,
              \<lparr>duration = 1 / 5, size_r = 1, cost = JNull\<rparr>,
              \<lparr>duration = 3 / 10, size_r = 2, cost = JNull\<rparr>]"
  have len: "length ?qs = 3" by (simp add: QUERIES_def)
  have all: "\<forall>i<length ?qs. i \<in> set (completion ?env) \<and>
      (\<exists>m. send_query (py_repr ?env) (network ?env i) (?qs ! i) = Inr m)"
  proof (intro allI impI)
    fix i assume "i < length ?qs"
    then have "i \<in> set [0..<3]" using len by simp
    with staggered_dispatches
    have "i \<in> set [2, 0, 1] \<and> \<not> isl (send_query example_repr (staggered_server i) (?qs ! i))"
      unfolding list_all_iff by blast
    then show "i \<in> set (completion ?env) \<and>
        (\<exists>m. send_query (py_repr ?env) (network ?env i) (?qs ! i) = Inr m)"
      by (cases "send_query example_repr (staggered_server i) (?qs ! i)")
        (simp_all add: example_env_def)
  qed
  note r = results_follow_query_order [of ?env ?qs]
  from r all obtain rs where rs: "gather_results ?env ?qs = Some (Inr rs)" by blast
  have one: "(1::nat) < length ?qs" using len by simp
  from r [of rs] rs one
  have at: "send_query (py_repr ?env) (network ?env 1) (?qs ! 1) = Inr (rs ! 1)" by blast
  from r [of rs] rs
  have same: "gather_results (?env\<lparr>completion := [1, 2, 0]\<rparr>) ?qs = Some (Inr ?rs) \<longrightarrow> ?rs = rs"
    by blast
  then have "rs = ?rs" using staggered_results(2) by simp
  with rs at have "gather_results ?env ?qs = Some (Inr ?rs)"
    and "send_query example_repr (staggered_server 1) (?qs ! 1) =
      Inr \<lparr>duration = 1 / 5, size_r = 1, cost = JNull\<rparr>"
    by (simp_all add: example_env_def)
  moreover have "gather_results (example_env\<lparr>network := staggered_server, completion := [1, 2, 0]\<rparr>) ?qs =
     Some (Inr ?rs)"
    using staggered_results(2) by simp
  ultimately show ?thesis using staggered_dispatches by simp
qed

subsection \<open>Failing dispatches\<close>

text \<open>
  C4, as the specification states it, fails on the script. With a second dispatch that
  gets no response and a third whose body is not JSON, the run ends with the exception
  of whichever of the two completes first; nothing is printed or written, although
  the other eight dispatches would have succeeded.
\<close>

theorem dispatch_failure_counterexample:
  "main (example_env\<lparr>network := flaky_server\<rparr>) QUERIES fresh_world =
     Some (Inl TransportError, fresh_world) \<and>
   main (example_env\<lparr>network := flaky_server, completion := [0, 2, 1, 3]\<rparr>) QUERIES fresh_world =
     Some (Inl JSONDecodeError, fresh_world)"
  unfolding main_def flaky_results by simp

text \<open>
  C4, amended. When a dispatch whose request gets no response, or whose response body
  is not JSON, completes, no failure is recorded for it. Some dispatch that raises
  has then completed; let \<open>j\<close> be the first such dispatch in the order of completion
  (\<open>find\<close> returns the first element of the completion list that is a failing
  dispatch). \<open>gather\<close> ends with the exception of \<open>j\<close>, \<open>main\<close> ends with the
  same exception and the world unchanged (the results of the other dispatches are
  dropped, nothing is summarised, printed or written), and the exit status is 1.
\<close>

theorem dispatch_failure_ends_run:
  assumes i: "i < length queries" "i \<in> set (completion env)"
    and bad: "reply (network env i (queries ! i)) = NoReply \<or>
              reply (network env i (queries ! i)) = Body None"
  shows "\<exists>e j. find (\<lambda>k. k < length queries \<and>
                         isl (send_query (py_repr env) (network env k) (queries ! k)))
                  (completion env) = Some j \<and>
           send_query (py_repr env) (network env j) (queries ! j) = Inl e \<and>
           gather_results env queries = Some (Inl e) \<and>
           main env queries w = Some (Inl e, w) \<and> exit_status (Inl e) = 1"
proof -
  let ?aws = "map (\<lambda>(i, q). send_query (py_repr env) (network env i) q) (enumerate 0 queries)"
  let ?P = "\<lambda>k. k < length queries \<and> isl (send_query (py_repr env) (network env k) (queries ! k))"
  have P: "(\<lambda>k. k < length ?aws \<and> isl (?aws ! k)) = ?P"
    by (rule ext) (auto simp: nth_enumerate_eq)
  from bad obtain e0 where "send_query (py_repr env) (network env i) (queries ! i) = Inl e0"
    using send_query_raises by blast
  with i have "?P i" by simp
  with i(2) have "find ?P (completion env) \<noteq> None" by (auto simp: find_None_iff)
  then obtain j where j: "find ?P (completion env) = Some j" by auto
  then have "?P j" by (auto simp: find_Some_iff)
  then obtain e where e: "send_query (py_repr env) (network env j) (queries ! j) = Inl e"
    and jn: "j < length queries"
    by (cases "send_query (py_repr env) (network env j) (queries ! j)") auto
  have "find (\<lambda>k. k < length ?aws \<and> isl (?aws ! k)) (completion env) = Some j"
    using j by (simp only: P)
  from gather_first [OF this] have "gather (completion env) ?aws = Some (Inl (projl (?aws ! j)))" .
  moreover have "?aws ! j = Inl e" using jn e by (simp add: nth_enumerate_eq)
  ultimately have g: "gather_results env queries = Some (Inl e)"
    by (simp add: gather_results_def)
  then have "main env queries w = Some (Inl e, w)" by (simp add: main_def)
  moreover have "exit_status (Inl e) = 1" by (simp add: exit_status_def)
  ultimately show ?thesis using j e g by blast
qed

text \<open>
  A witness of C4 on the run of the counterexample: the dispatch 3 completes first and
  returns a measurement, the dispatch 1 completes next and is the first to raise; the
  dispatch 2, which raises too, completes after it.
\<close>

theorem dispatch_failure_ends_run_witness:
  "(2::nat) < length QUERIES \<and> 2 \<in> set (completion (example_env\<lparr>network := flaky_server\<rparr>)) \<and>
   reply (network (example_env\<lparr>network := flaky_server\<rparr>) 2 (QUERIES ! 2)) = Body None \<and>
   completion (example_env\<lparr>network := flaky_server\<rparr>) = [3, 1, 2, 0, 4, 9, 8, 7, 6, 5] \<and>
   send_query example_repr (flaky_server 3) (QUERIES ! 3) =
     Inr \<lparr>duration = 1 / 8, size_r = 2, cost = JInt 3\<rparr> \<and>
   send_query example_repr (flaky_server 1) (QUERIES ! 1) = Inl TransportError \<and>
   main (example_env\<lparr>network := flaky_server\<rparr>) QUERIES fresh_world =
     Some (Inl TransportError, fresh_world)"
proof -
  let ?env = "example_env\<lparr>network := flaky_server\<rparr>"
  have a: "(2::nat) < length QUERIES" by (simp add: QUERIES_def)
  have b: "2 \<in> set (completion ?env)" by (simp add: example_env_def)
  have c: "reply (network ?env 2 (QUERIES ! 2)) = Body None"
    by (simp add: example_env_def flaky_server_def)
  have d: "completion ?env = [3, 1, 2, 0, 4, 9, 8, 7, 6, 5]" by (simp add: example_env_def)
  have three: "send_query example_repr (flaky_server 3) (QUERIES ! 3) =
     Inr \<lparr>duration = 1 / 8, size_r = 2, cost = JInt 3\<rparr>"
    by code_simp
  have one: "send_query example_repr (flaky_server 1) (QUERIES ! 1) = Inl TransportError"
    by code_simp
  from dispatch_failure_ends_run [OF a b, of fresh_world] c
  obtain e j where j: "find (\<lambda>k. k < length QUERIES \<and>
        isl (send_query (py_repr ?env) (network ?env k) (QUERIES ! k))) (completion ?env) = Some j"
    and e: "send_query (py_repr ?env) (network ?env j) (QUERIES ! j) = Inl e"
    and m: "main ?env QUERIES fresh_world = Some (Inl e, fresh_world)"
    by blast
  from j have "j = 1" by (simp only: flaky_first option.inject)
  with e one have "e = TransportError" by (simp add: example_env_def)
  with m one a b c d three show ?thesis by blast
qed

subsection \<open>No records, and durations that sum to zero\<close>

text \<open>
  C3, as the specification states it, fails on the script. One record of duration 0 has
  the sum 0, and the script raises nothing: the throughput is the result \<open>inf\<close> of
  the division by zero, the file is written and the exit status is 0.
\<close>

theorem zero_sum_counterexample:
  "fsum (map duration [timed 0]) = Finite 0 \<and>
   aggregate Legacy [timed 0] =
     Inr \<lparr>min_d = 0, avg = Finite 0, p95 = 0, throughput = PosInf\<rparr> \<and>
   aggregate Current [timed 0] =
     Inr \<lparr>min_d = 0, avg = Finite 0, p95 = 0, throughput = PosInf\<rparr> \<and>
   fst (report (example_library\<lparr>nearest := Legacy\<rparr>) [timed 0] fresh_world) = Inr () \<and>
   fst (report example_library [timed 0] fresh_world) = Inr () \<and>
   files (snd (report (example_library\<lparr>nearest := Legacy\<rparr>) [timed 0] fresh_world))
       ''load_test_summary.csv'' =
     Some \<lparr>columns = [''duration'', ''size'', ''cost''],
           rows = [[CFloat (Finite 0), CInt 0, CObj JNull]]\<rparr> \<and>
   files (snd (report example_library [timed 0] fresh_world)) ''load_test_summary.csv'' =
     Some \<lparr>columns = [''duration'', ''size'', ''cost''],
           rows = [[CFloat (Finite 0), CInt 0, CObj JNull]]\<rparr> \<and>
   exit_status (fst (report (example_library\<lparr>nearest := Legacy\<rparr>) [timed 0] fresh_world)) = 0 \<and>
   exit_status (fst (report example_library [timed 0] fresh_world)) = 0"
  by (simp add: report_def aggregate_def quantile_def fsum_def round64_def example_library_def
      fresh_world_def timed_def frame_table_def exit_status_def nearest_idx_Current_95
      nearest_idx_Legacy_95 del: nearest_idx.simps)

text \<open>
  C3, amended. With no query, so with no record, the run ends with the data-frame
  library's exception for the missing column \<open>duration\<close> (the script has no
  \<open>EmptyInputError\<close>), nothing is written and the exit status is 1. With at least
  one record, a \<open>cost\<close> column that the library builds into the frame and writes to
  the file, and durations whose floating-point sum is zero, nothing is raised: the
  throughput is \<open>inf\<close>, the summary is printed, the file is written and the exit
  status is 0. (A \<open>cost\<close> column that the library does not build ends the run at line
  25, and one that it does not write ends it at line 33, after the summary was
  printed: see \<open>report\<close>.)
\<close>

theorem no_records_raises_zero_sum_divides:
  "main env [] w = Some (Inl ColumnNotFoundError, w) \<and>
   report lib [] w = (Inl ColumnNotFoundError, w) \<and>
   exit_status (fst (report lib [] w)) = 1 \<and>
   (df \<noteq> [] \<and> fsum (map duration df) = Finite 0 \<and>
    builds_frame lib (map cost df) \<and> writes_csv lib (map cost df) \<longrightarrow>
      (\<exists>s. aggregate (nearest lib) df = Inr s \<and> throughput s = PosInf \<and>
           report lib df w =
             (Inr (),
              w\<lparr>stdout := stdout w @ [summary_table s],
                files := (files w)(''load_test_summary.csv'' \<mapsto> frame_table df)\<rparr>) \<and>
           exit_status (fst (report lib df w)) = 0))"
proof (intro conjI impI)
  have "gather_loop [] sched got = Inr got" for sched :: "nat list" and got :: "nat \<rightharpoonup> measurement"
    by (induction sched) simp_all
  then have "gather_results env [] = Some (Inr [])"
    by (simp add: gather_results_def gather_def)
  then show "main env [] w = Some (Inl ColumnNotFoundError, w)"
    by (simp add: main_def report_def aggregate_def)
  show "report lib [] w = (Inl ColumnNotFoundError, w)"
    by (simp add: report_def aggregate_def)
  then show "exit_status (fst (report lib [] w)) = 1"
    by (simp add: exit_status_def)
next
  assume a: "df \<noteq> [] \<and> fsum (map duration df) = Finite 0 \<and>
    builds_frame lib (map cost df) \<and> writes_csv lib (map cost df)"
  then have ne: "df \<noteq> []" and z: "fsum (map duration df) = Finite 0"
    and bf: "builds_frame lib (map cost df)" and wc: "writes_csv lib (map cost df)"
    by simp_all
  let ?s = "\<lparr>min_d = Min (set (map duration df)),
             avg = fdiv (fsum (map duration df)) (Finite (of_nat (length df))),
             p95 = quantile (nearest lib) (19 / 20) (map duration df),
             throughput = fdiv (Finite (of_nat (length df))) (fsum (map duration df))\<rparr>"
  have agg: "aggregate (nearest lib) df = Inr ?s" using ne by (rule aggregate_nonempty)
  have inf: "throughput ?s = PosInf" using ne z by simp
  have rep: "report lib df w =
      (Inr (), w\<lparr>stdout := stdout w @ [summary_table ?s],
                 files := (files w)(''load_test_summary.csv'' \<mapsto> frame_table df)\<rparr>)"
    unfolding report_def Let_def agg using bf wc by simp
  have ex: "exit_status (fst (report lib df w)) = 0"
    unfolding rep by (simp add: exit_status_def)
  show "\<exists>s. aggregate (nearest lib) df = Inr s \<and> throughput s = PosInf \<and>
           report lib df w =
             (Inr (),
              w\<lparr>stdout := stdout w @ [summary_table s],
                files := (files w)(''load_test_summary.csv'' \<mapsto> frame_table df)\<rparr>) \<and>
           exit_status (fst (report lib df w)) = 0"
    using agg inf rep ex by blast
qed

text \<open>A witness of C3 with two records of duration 0 and no cost.\<close>

theorem no_records_raises_zero_sum_divides_witness:
  "[timed 0, timed 0] \<noteq> [] \<and> fsum (map duration [timed 0, timed 0]) = Finite 0 \<and>
   builds_frame example_library (map cost [timed 0, timed 0]) \<and>
   writes_csv example_library (map cost [timed 0, timed 0]) \<and>
   main example_env [] fresh_world = Some (Inl ColumnNotFoundError, fresh_world) \<and>
   (\<exists>s. aggregate Current [timed 0, timed 0] = Inr s \<and> throughput s = PosInf \<and>
        fst (report example_library [timed 0, timed 0] fresh_world) = Inr ())"
proof -
  have h: "[timed 0, timed 0] \<noteq> [] \<and> fsum (map duration [timed 0, timed 0]) = Finite 0 \<and>
      builds_frame example_library (map cost [timed 0, timed 0]) \<and>
      writes_csv example_library (map cost [timed 0, timed 0])"
    by (simp add: timed_def fsum_def round64_def example_library_def)
  have n: "nearest example_library = Current" by (simp add: example_library_def)
  from no_records_raises_zero_sum_divides
    [of example_env fresh_world example_library "[timed 0, timed 0]"] h
  obtain s where "aggregate (nearest example_library) [timed 0, timed 0] = Inr s"
      "throughput s = PosInf"
      "fst (report example_library [timed 0, timed 0] fresh_world) = Inr ()"
      "main example_env [] fresh_world = Some (Inl ColumnNotFoundError, fresh_world)"
    by auto
  with h n show ?thesis by auto
qed

subsection \<open>The file of a successful run\<close>

text \<open>
  C2 does not hold of the script. The run of the ten queries against the steady server
  prints the one-row summary with the columns \<open>min\<close>, \<open>avg\<close>, \<open>p95\<close>,
  \<open>throughput\<close>, but what it stores under \<open>load_test_summary.csv\<close> is the frame of
  the ten measurements, with the columns \<open>duration\<close>, \<open>size\<close>, \<open>cost\<close>: line 33
  writes \<open>df\<close>, not \<open>summary\<close>.
\<close>

theorem summary_file_holds_measurements:
  "main example_env QUERIES fresh_world =
     Some (Inr (),
       \<lparr>stdout =
          [\<lparr>columns = [''min'', ''avg'', ''p95'', ''throughput''],
            rows = [[CFloat (Finite (1 / 8)), CFloat (Finite (1 / 8)), CFloat (Finite (1 / 8)),
                     CFloat (Finite 8)]]\<rparr>],
        files =
          [''load_test_summary.csv'' \<mapsto>
             \<lparr>columns = [''duration'', ''size'', ''cost''],
              rows = replicate 10 [CFloat (Finite (1 / 8)), CInt 2, CObj (JInt 3)]\<rparr>]\<rparr>)"
  unfolding main_def steady_results by (simp add: example_env_def steady_report)

end
